theory Spec2Isabelle
  imports Complex_Main "HOL-Library.Sublist"
begin

section \<open>DHRutil.plotting: the colour palette helper\<close>

text \<open>
  \<^verbatim>\<open>get_colors(n_colors, color_set)\<close> looks the colour set up in a dict of two
  palettes, raises \<^verbatim>\<open>ValueError\<close> for an unknown name, warns when more colours are
  requested than the palette holds, and returns
  \<^verbatim>\<open>[c for n, c in zip([_ for _ in range(n_colors)], cycle(cs))]\<close>.
  The dict is an association list, the raised error a value, the warning a flag
  returned beside the list.
\<close>

datatype color_error = ColorSetNotDefined string

definition color_sets :: "(string \<times> string list) list" where
  "color_sets =
     [(''nonseq7'', [''#780B51'', ''#23E391'', ''#4D119D'', ''#FFB359'', ''#FF85C3'', ''#196DC1'', ''#8FF63B'']),
      (''seq7'', [''#0A2F51'', ''#0F596B'', ''#16837A'', ''#1D9A6C'', ''#3B544'', ''#92CB5D'', ''#DEDB85''])]"

text \<open>
  \<^verbatim>\<open>zip(ns, itertools.cycle(cs))\<close>: \<open>zip\<close> asks its first argument for an element, then the
  cycle. The cycle hands out what is left of the current pass (\<open>cur\<close>) and starts the
  next pass from the saved copy; the cycle of an empty sequence is exhausted at once.
\<close>

fun zip_cycle :: "'a list \<Rightarrow> 'b list \<Rightarrow> 'b list \<Rightarrow> ('a \<times> 'b) list" where
  "zip_cycle [] cur saved = []"
| "zip_cycle (n # ns) (c # cur) saved = (n, c) # zip_cycle ns cur saved"
| "zip_cycle (n # ns) [] saved =
     (case saved of [] \<Rightarrow> [] | c # cur \<Rightarrow> (n, c) # zip_cycle ns cur saved)"

text \<open>\<^verbatim>\<open>range(n)\<close> for a Python int: empty when \<open>n \<le> 0\<close>.\<close>

definition range :: "int \<Rightarrow> nat list" where
  "range n = [0..<nat n]"

definition get_colors :: "int \<Rightarrow> string \<Rightarrow> color_error + (bool \<times> string list)" where
  "get_colors n_colors color_set =
     (case map_of color_sets color_set of
        None \<Rightarrow> Inl (ColorSetNotDefined color_set)
      | Some cs \<Rightarrow>
          Inr (n_colors > int (length cs), map snd (zip_cycle (range n_colors) cs cs)))"

section \<open>DHRutil.caching: the cache file name\<close>

text \<open>
  \<^verbatim>\<open>str.isalnum\<close> on one character. A \<^typ>\<open>char\<close> stands for the code point of the same
  number (U+0000 to U+00FF); in that range Python counts as alphanumeric the ASCII
  digits and letters, the ordinal indicators and the micro sign (AA, BA, B5), the
  superscript digits (B2, B3, B9), the vulgar fractions (BC to BE) and the letters
  C0 to FF other than the multiplication and division signs (D7, F7).
\<close>

definition isalnum :: "char \<Rightarrow> bool" where
  "isalnum c =
     (let n = (of_char c :: nat) in
        (48 \<le> n \<and> n \<le> 57) \<or> (65 \<le> n \<and> n \<le> 90) \<or> (97 \<le> n \<and> n \<le> 122)
        \<or> n \<in> {170, 178, 179, 181, 185, 186, 188, 189, 190}
        \<or> (192 \<le> n \<and> n \<noteq> 215 \<and> n \<noteq> 247))"

text \<open>
  \<^verbatim>\<open>_get_pf_name(fname, *args, **kwargs)\<close>. The positional arguments are given by their
  \<^verbatim>\<open>str()\<close> images, the keyword arguments as the ordered list of pairs of a key and the
  \<^verbatim>\<open>str()\<close> image of its value. \<open>pf_raw_name\<close> is the value of \<^verbatim>\<open>name\<close> before the last
  assignment, \<open>pf_char_ok\<close> the condition of the generator expression.
\<close>

definition pf_raw_name :: "string \<Rightarrow> string list \<Rightarrow> (string \<times> string) list \<Rightarrow> string" where
  "pf_raw_name fname args kwargs =
     (let name = fname;
          name = foldl (\<lambda>name arg. name @ ''_'' @ arg) name args;
          name = foldl (\<lambda>name (k, v). name @ ''_'' @ k @ ''-'' @ v) name kwargs
      in name @ ''.pickle'')"

definition pf_char_ok :: "char \<Rightarrow> bool" where
  "pf_char_ok c = (isalnum c \<or> c \<in> set ''._- '')"

definition get_pf_name :: "string \<Rightarrow> string list \<Rightarrow> (string \<times> string) list \<Rightarrow> string" where
  "get_pf_name fname args kwargs = filter pf_char_ok (pf_raw_name fname args kwargs)"

section \<open>DHRutil.RNAseq.align_and_count_features: the pipeline driver\<close>

subsection \<open>Library functions the driver calls\<close>

text \<open>\<^verbatim>\<open>str(n)\<close> for a Python int.\<close>

fun str_nat :: "nat \<Rightarrow> string" where
  "str_nat n =
     (if n < 10 then [char_of (48 + n)]
      else str_nat (n div 10) @ [char_of (48 + n mod 10)])"

definition str_int :: "int \<Rightarrow> string" where
  "str_int i = (if i < 0 then ''-'' @ str_nat (nat (- i)) else str_nat (nat i))"

text \<open>\<^verbatim>\<open>' '.join(xs)\<close>.\<close>

fun join :: "string list \<Rightarrow> string" where
  "join [] = []"
| "join [x] = x"
| "join (x # y # ys) = x @ '' '' @ join (y # ys)"

definition newline :: string where
  "newline = [CHR 0x0A]"

text \<open>
  \<^verbatim>\<open>os.path.splitext\<close> of \<^verbatim>\<open>posixpath\<close> (the script assumes a bash environment):
  \<^verbatim>\<open>
  sepIndex = p.rfind('/')
  dotIndex = p.rfind('.')
  if dotIndex > sepIndex:
      filenameIndex = sepIndex + 1
      while filenameIndex < dotIndex:
          if p[filenameIndex:filenameIndex+1] != '.':
              return p[:dotIndex], p[dotIndex:]
          filenameIndex += 1
  return p, p[:0]
  \<close>
\<close>

definition rfind :: "char \<Rightarrow> string \<Rightarrow> int" where
  "rfind ch p =
     (if ch \<in> set p then int (length p) - 1 - int (length (takeWhile (\<lambda>x. x \<noteq> ch) (rev p)))
      else - 1)"

function splitext_loop :: "string \<Rightarrow> int \<Rightarrow> int \<Rightarrow> string \<times> string" where
  "splitext_loop p dotIndex filenameIndex =
     (if filenameIndex < dotIndex then
        (if p ! nat filenameIndex \<noteq> CHR ''.'' then (take (nat dotIndex) p, drop (nat dotIndex) p)
         else splitext_loop p dotIndex (filenameIndex + 1))
      else (p, []))"
  by pat_completeness auto
termination
  by (relation "measure (\<lambda>(p, dotIndex, filenameIndex). nat (dotIndex - filenameIndex))") auto

definition splitext :: "string \<Rightarrow> string \<times> string" where
  "splitext p =
     (let sepIndex = rfind CHR ''/'' p; dotIndex = rfind CHR ''.'' p
      in if dotIndex > sepIndex then splitext_loop p dotIndex (sepIndex + 1) else (p, []))"

text \<open>
  \<^verbatim>\<open>re.compile(r'([0-9]+[.][0-9]+)% overall alignment rate').search(s)\<close>, giving
  \<^verbatim>\<open>group(1)\<close> of the match or \<open>None\<close>. At one start position the match is forced: a
  run of digits is followed by neither a digit nor, inside the run, by a dot or a
  percent sign, so the greedy choice is the only one. \<open>search\<close> takes the leftmost
  start position that matches.
\<close>

definition isdigit09 :: "char \<Rightarrow> bool" where
  "isdigit09 c = (c \<in> set ''0123456789'')"

definition match_here :: "string \<Rightarrow> string option" where
  "match_here s =
     (let d1 = takeWhile isdigit09 s; r1 = dropWhile isdigit09 s in
      if d1 = [] then None
      else case r1 of
        [] \<Rightarrow> None
      | c # r2 \<Rightarrow>
          if c \<noteq> CHR ''.'' then None
          else let d2 = takeWhile isdigit09 r2; r3 = dropWhile isdigit09 r2 in
            if d2 = [] then None
            else if take 24 r3 = ''% overall alignment rate'' then Some (d1 @ ''.'' @ d2)
            else None)"

fun search :: "string \<Rightarrow> string option" where
  "search [] = None"
| "search (c # cs) =
     (case match_here (c # cs) of Some g \<Rightarrow> Some g | None \<Rightarrow> search cs)"

text \<open>
  A Python float as \<^verbatim>\<open>float()\<close> gives it for a text of digits, a dot and digits: a
  non-negative rational or, for a text too large for a double, infinity.
  \<open>float_lt_int\<close> is \<^verbatim>\<open>x < n\<close> for a float and an int.
\<close>

datatype pyfloat = Finite rat | Infinity

definition float_lt_int :: "pyfloat \<Rightarrow> int \<Rightarrow> bool" where
  "float_lt_int x n = (case x of Finite q \<Rightarrow> q < of_int n | Infinity \<Rightarrow> False)"

subsection \<open>Configuration, files and the environment\<close>

text \<open>
  The configuration dict. A field is \<open>None\<close> when the key is absent from the dict (a
  \<^verbatim>\<open>KeyError\<close> where it is read) and holds a value of the type of the template's
  value otherwise.
\<close>

record config =
  input_raw_sequence_reads :: "string list option"
  max_cpu_threads :: "int option"
  hisat2_index_filename_prefix :: "string option"
  featureCounts_gtf_annotation_file :: "string option"
  gzip_fq_after_alignment :: "bool option"
  rm_sam_after_converting :: "bool option"
  rm_bam_after_sorting :: "bool option"

type_synonym path = string

text \<open>
  A file is given by what it holds: bytes, the JSON text of a configuration (what
  \<^verbatim>\<open>json.dump\<close> writes and \<^verbatim>\<open>json.load\<close> reads back), or the gzip compression of
  another file's bytes.
\<close>

datatype content = Plain string | JsonCfg config | Gz content

text \<open>
  What the driver does to the outside world, in order: it starts a subprocess, it
  opens a file for writing (creating or truncating it), it removes a file.
\<close>

datatype event = Launch "string list" | Wrote path | Removed path

record world =
  files :: "path \<rightharpoonup> content"
  events :: "event list"

text \<open>
  The environment of a run. \<open>run\<close> is \<^verbatim>\<open>subprocess.run\<close> on an installed tool: for a
  command line and the files present it gives the exit code, the text the tool
  writes to its standard output and the files present afterwards. \<open>py_float\<close> is
  \<^verbatim>\<open>float()\<close> on a matched rate text. \<open>buffer_size\<close> is the size of the buffer of a
  file object opened with \<^verbatim>\<open>open(name, 'wb')\<close>.
  The tools are installed, as the docstring of the module requires, so every command
  starts and ends with an exit code; the files the driver itself opens for writing
  can be written.
\<close>

record env =
  run :: "string list \<Rightarrow> (path \<rightharpoonup> content) \<Rightarrow> int \<times> string \<times> (path \<rightharpoonup> content)"
  py_float :: "string \<Rightarrow> pyfloat"
  buffer_size :: nat

datatype error =
    NoOptions
  | NoConfigFile
  | UnrecognizedOption string
  | ConfigNotFound path
  | ToolFailed string int "string option"
  | RateBelowThreshold pyfloat string
  | KeyError string
  | AttributeError
  | FileNotFoundError path
  | JSONDecodeError path

text \<open>
  \<open>NoOptions\<close>, \<open>NoConfigFile\<close> and \<open>UnrecognizedOption\<close> are the \<^verbatim>\<open>ValueError\<close>s of
  \<^verbatim>\<open>_main\<close>, \<open>ConfigNotFound\<close> the \<^verbatim>\<open>ValueError\<close> of \<^verbatim>\<open>_load_config\<close>. \<open>ToolFailed\<close> is
  the \<^verbatim>\<open>RuntimeError\<close> for a nonzero exit code, with the tool, the code and the input
  the message names; \<open>RateBelowThreshold\<close> the \<^verbatim>\<open>RuntimeError\<close> for an alignment rate
  under 70, with the rate and the input. \<open>AttributeError\<close> is \<^verbatim>\<open>.group(1)\<close> on the
  \<open>None\<close> of a failed search.
\<close>

definition launch :: "env \<Rightarrow> string list \<Rightarrow> world \<Rightarrow> (int \<times> string) \<times> world" where
  "launch e cmd w =
     (case run e cmd (files w) of
        (returncode, out, fs) \<Rightarrow>
          ((returncode, out), w\<lparr>files := fs, events := events w @ [Launch cmd]\<rparr>))"

definition write_file :: "path \<Rightarrow> content \<Rightarrow> world \<Rightarrow> world" where
  "write_file p f w = w\<lparr>files := (files w)(p \<mapsto> f), events := events w @ [Wrote p]\<rparr>"

definition remove :: "path \<Rightarrow> world \<Rightarrow> (error + unit) \<times> world" where
  "remove p w =
     (case files w p of
        None \<Rightarrow> (Inl (FileNotFoundError p), w)
      | Some f \<Rightarrow> (Inr (), w\<lparr>files := (files w)(p := None), events := events w @ [Removed p]\<rparr>))"

subsection \<open>The functions of the script\<close>

definition sample_config :: config where
  "sample_config =
     \<lparr>input_raw_sequence_reads =
        Some [''ctl_A_1.fq'', ''ctl_A_2.fq'', ''ctl_B_1.fq'', ''ctl_B_2.fq'',
              ''trt_C_1.fq'', ''trt_C_2.fq'', ''trt_D_1.fq'', ''trt_D_2.fq''],
      max_cpu_threads = Some 16,
      hisat2_index_filename_prefix = Some ''index/genome'',
      featureCounts_gtf_annotation_file = Some ''annotation.gtf'',
      gzip_fq_after_alignment = Some True,
      rm_sam_after_converting = Some True,
      rm_bam_after_sorting = Some True\<rparr>"

definition make_sample_config_file :: "world \<Rightarrow> world" where
  "make_sample_config_file w = write_file ''config.json'' (JsonCfg sample_config) w"

definition load_config :: "path \<Rightarrow> world \<Rightarrow> error + config" where
  "load_config config_file w =
     (case files w config_file of
        None \<Rightarrow> Inl (ConfigNotFound config_file)
      | Some (JsonCfg c) \<Rightarrow> Inr c
      | Some _ \<Rightarrow> Inl (JSONDecodeError config_file))"

text \<open>
  \<^verbatim>\<open>_gzip_fq\<close>: the source is opened for reading first, then the \<^verbatim>\<open>.gz\<close> file is
  created and receives the source's bytes, then the source is removed.
\<close>

definition gzip_fq :: "path \<Rightarrow> world \<Rightarrow> (error + unit) \<times> world" where
  "gzip_fq fq w =
     (case files w fq of
        None \<Rightarrow> (Inl (FileNotFoundError fq), w)
      | Some src \<Rightarrow> remove fq (write_file (fq @ ''.gz'') (Gz src) w))"

definition hisat2_cmd :: "int \<Rightarrow> string \<Rightarrow> string \<Rightarrow> string list" where
  "hisat2_cmd threads index_prefix input_fq =
     [''./hisat2'', ''-q'', ''-p'', str_int threads, ''--pen-noncansplice'', ''1000000'',
      ''-x'', index_prefix, ''-1'', input_fq, ''-2'', input_fq,
      ''-S'', fst (splitext input_fq) @ ''.sam'']"

text \<open>The body of the loop of \<^verbatim>\<open>_hisat_2_align_seq_reads\<close>, for one input.\<close>

definition align_body ::
  "env \<Rightarrow> config \<Rightarrow> string \<Rightarrow> string list \<Rightarrow> world \<Rightarrow> (error + string list) \<times> world" where
  "align_body e c input_fq sams w =
     (let base_name = fst (splitext input_fq);
          output_sam = base_name @ ''.sam'';
          log_file = base_name @ ''.align.log''
      in case max_cpu_threads c of
        None \<Rightarrow> (Inl (KeyError ''max_cpu_threads''), w)
      | Some threads \<Rightarrow>
       (case hisat2_index_filename_prefix c of
          None \<Rightarrow> (Inl (KeyError ''hisat2_index_filename_prefix''), w)
        | Some index_prefix \<Rightarrow>
         (let cmd = hisat2_cmd threads index_prefix input_fq in
          case launch e cmd w of
            ((returncode, out), w1) \<Rightarrow>
             (if returncode \<noteq> 0
              then (Inl (ToolFailed ''hisat2'' returncode (Some input_fq)), w1)
              else
               (case search out of
                  None \<Rightarrow> (Inl AttributeError, w1)
                | Some g \<Rightarrow>
                 (let align_rate = py_float e g in
                  if float_lt_int align_rate 70
                  then (Inl (RateBelowThreshold align_rate input_fq), w1)
                  else
                   (let w2 = write_file log_file (Plain (join cmd @ newline @ out)) w1;
                        sams' = sams @ [output_sam]
                    in case gzip_fq_after_alignment c of
                      None \<Rightarrow> (Inl (KeyError ''gzip_fq_after_alignment''), w2)
                    | Some gz \<Rightarrow>
                       (if gz then
                          (case gzip_fq input_fq w2 of
                             (Inl err, w3) \<Rightarrow> (Inl err, w3)
                           | (Inr u, w3) \<Rightarrow> (Inr sams', w3))
                        else (Inr sams', w2)))))))))"

fun align_loop ::
  "env \<Rightarrow> config \<Rightarrow> string list \<Rightarrow> string list \<Rightarrow> world \<Rightarrow> (error + string list) \<times> world" where
  "align_loop e c [] sams w = (Inr sams, w)"
| "align_loop e c (input_fq # rest) sams w =
     (case align_body e c input_fq sams w of
        (Inl err, w') \<Rightarrow> (Inl err, w')
      | (Inr sams', w') \<Rightarrow> align_loop e c rest sams' w')"

definition hisat_2_align_seq_reads ::
  "env \<Rightarrow> config \<Rightarrow> world \<Rightarrow> (error + string list) \<times> world" where
  "hisat_2_align_seq_reads e c w =
     (case input_raw_sequence_reads c of
        None \<Rightarrow> (Inl (KeyError ''input_raw_sequence_reads''), w)
      | Some inputs \<Rightarrow> align_loop e c inputs [] w)"

text \<open>
  \<^verbatim>\<open>_samtools_view\<close>: the \<^verbatim>\<open>.bam\<close> file is opened for writing before the configuration
  is read for the command, and the converter's standard output goes to that file.
\<close>

definition view_body ::
  "env \<Rightarrow> config \<Rightarrow> string \<Rightarrow> string list \<Rightarrow> world \<Rightarrow> (error + string list) \<times> world" where
  "view_body e c input_sam bams w =
     (let base_name = fst (splitext input_sam);
          output_bam = base_name @ ''.bam'';
          w1 = write_file output_bam (Plain []) w
      in case max_cpu_threads c of
        None \<Rightarrow> (Inl (KeyError ''max_cpu_threads''), w1)
      | Some threads \<Rightarrow>
         (let cmd = [''./samtools'', ''view'', ''-b'', ''--threads'', str_int threads, input_sam] in
          case launch e cmd w1 of
            ((returncode, out), w2) \<Rightarrow>
             (let w3 = w2\<lparr>files := (files w2)(output_bam \<mapsto> Plain out)\<rparr> in
              if returncode \<noteq> 0
              then (Inl (ToolFailed ''samtools view'' returncode (Some input_sam)), w3)
              else
               (let bams' = bams @ [output_bam]
                in case rm_sam_after_converting c of
                  None \<Rightarrow> (Inl (KeyError ''rm_sam_after_converting''), w3)
                | Some rm \<Rightarrow>
                   (if rm then
                      (case remove input_sam w3 of
                         (Inl err, w4) \<Rightarrow> (Inl err, w4)
                       | (Inr u, w4) \<Rightarrow> (Inr bams', w4))
                    else (Inr bams', w3))))))"

fun view_loop ::
  "env \<Rightarrow> config \<Rightarrow> string list \<Rightarrow> string list \<Rightarrow> world \<Rightarrow> (error + string list) \<times> world" where
  "view_loop e c [] bams w = (Inr bams, w)"
| "view_loop e c (input_sam # rest) bams w =
     (case view_body e c input_sam bams w of
        (Inl err, w') \<Rightarrow> (Inl err, w')
      | (Inr bams', w') \<Rightarrow> view_loop e c rest bams' w')"

definition samtools_view ::
  "env \<Rightarrow> string list \<Rightarrow> config \<Rightarrow> world \<Rightarrow> (error + string list) \<times> world" where
  "samtools_view e sams c w = view_loop e c sams [] w"

text \<open>\<^verbatim>\<open>_samtools_sort\<close>: the sorter's output is discarded.\<close>

definition sort_body ::
  "env \<Rightarrow> config \<Rightarrow> string \<Rightarrow> string list \<Rightarrow> world \<Rightarrow> (error + string list) \<times> world" where
  "sort_body e c input_bam sort_bams w =
     (let base_name = fst (splitext input_bam);
          output_bam = base_name @ ''.sort.bam''
      in case max_cpu_threads c of
        None \<Rightarrow> (Inl (KeyError ''max_cpu_threads''), w)
      | Some threads \<Rightarrow>
         (let cmd = [''./samtools'', ''sort'', ''-b'', ''--threads'', str_int threads,
                     input_bam, ''-o'', output_bam] in
          case launch e cmd w of
            ((returncode, out), w1) \<Rightarrow>
             (if returncode \<noteq> 0
              then (Inl (ToolFailed ''samtools sort'' returncode (Some input_bam)), w1)
              else
               (let sort_bams' = sort_bams @ [output_bam]
                in case rm_bam_after_sorting c of
                  None \<Rightarrow> (Inl (KeyError ''rm_bam_after_sorting''), w1)
                | Some rm \<Rightarrow>
                   (if rm then
                      (case remove input_bam w1 of
                         (Inl err, w2) \<Rightarrow> (Inl err, w2)
                       | (Inr u, w2) \<Rightarrow> (Inr sort_bams', w2))
                    else (Inr sort_bams', w1))))))"

fun sort_loop ::
  "env \<Rightarrow> config \<Rightarrow> string list \<Rightarrow> string list \<Rightarrow> world \<Rightarrow> (error + string list) \<times> world" where
  "sort_loop e c [] sort_bams w = (Inr sort_bams, w)"
| "sort_loop e c (input_bam # rest) sort_bams w =
     (case sort_body e c input_bam sort_bams w of
        (Inl err, w') \<Rightarrow> (Inl err, w')
      | (Inr sort_bams', w') \<Rightarrow> sort_loop e c rest sort_bams' w')"

definition samtools_sort ::
  "env \<Rightarrow> string list \<Rightarrow> config \<Rightarrow> world \<Rightarrow> (error + string list) \<times> world" where
  "samtools_sort e bams c w = sort_loop e c bams [] w"

text \<open>
  \<^verbatim>\<open>_featurecounts_all_samples\<close> opens \<^verbatim>\<open>features.log\<close> with \<^verbatim>\<open>open(..., 'wb')\<close>, calls
  \<^verbatim>\<open>f.write(cmd_str.encode())\<close> and then \<^verbatim>\<open>run(cmd, stdout=f)\<close>. The file object is a
  buffered writer: \<^verbatim>\<open>write\<close> keeps data that fits its empty buffer in the memory of
  the Python process until the file object is flushed or closed, and hands larger
  data to the file at once. \<^verbatim>\<open>run\<close> gives the child the file's descriptor, without
  flushing the file object, and the child writes its standard output to the
  descriptor at the file offset it shares with the parent. The \<^verbatim>\<open>with\<close> block closes
  the file object when it is left, also by the \<^verbatim>\<open>raise\<close>, and the data kept in the
  buffer goes to the file then, after what the child wrote.
  \<open>buffered_write\<close> gives the part of the data written at once and the part kept.
\<close>

definition buffered_write :: "nat \<Rightarrow> string \<Rightarrow> string \<times> string" where
  "buffered_write bufsize data = (if length data \<le> bufsize then ([], data) else (data, []))"

definition featurecounts_cmd :: "string \<Rightarrow> int \<Rightarrow> string list \<Rightarrow> string list" where
  "featurecounts_cmd gtf threads sort_bams =
     [''./featureCounts'', ''-p'', ''-t'', ''exon'', ''-a'', gtf, ''-g'', ''gene_name'',
      ''-T'', str_int threads, ''-o'', ''features.txt''] @ sort_bams"

definition featurecounts_all_samples ::
  "env \<Rightarrow> string list \<Rightarrow> config \<Rightarrow> world \<Rightarrow> (error + unit) \<times> world" where
  "featurecounts_all_samples e sort_bams c w =
     (let w1 = write_file ''features.log'' (Plain []) w
      in case featureCounts_gtf_annotation_file c of
        None \<Rightarrow> (Inl (KeyError ''featureCounts_gtf_annotation_file''), w1)
      | Some gtf \<Rightarrow>
         (case max_cpu_threads c of
            None \<Rightarrow> (Inl (KeyError ''max_cpu_threads''), w1)
          | Some threads \<Rightarrow>
             (let cmd = featurecounts_cmd gtf threads sort_bams;
                  cmd_str = join cmd @ newline
              in case buffered_write (buffer_size e) cmd_str of
                (written, kept) \<Rightarrow>
                 (let w2 = w1\<lparr>files := (files w1)(''features.log'' \<mapsto> Plain written)\<rparr> in
                  case launch e cmd w2 of
                    ((returncode, out), w3) \<Rightarrow>
                     (let w4 = w3\<lparr>files :=
                                 (files w3)(''features.log'' \<mapsto> Plain (written @ out @ kept))\<rparr>
                      in if returncode \<noteq> 0
                         then (Inl (ToolFailed ''featureCounts'' returncode None), w4)
                         else (Inr (), w4))))))"

text \<open>
  \<^verbatim>\<open>_main\<close> on \<^verbatim>\<open>sys.argv\<close>. \<^verbatim>\<open>exit()\<close> after the help message or the template ends the
  run like a return does. What the script prints is not part of the model.
\<close>

definition main :: "env \<Rightarrow> string list \<Rightarrow> world \<Rightarrow> (error + unit) \<times> world" where
  "main e argv w =
     (if length argv < 2 then (Inl NoOptions, w)
      else if argv ! 1 = ''--help'' then (Inr (), w)
      else if argv ! 1 = ''--make-config'' then (Inr (), make_sample_config_file w)
      else if argv ! 1 = ''--config'' then
        (if length argv < 3 then (Inl NoConfigFile, w)
         else
          (case load_config (argv ! 2) w of
             Inl err \<Rightarrow> (Inl err, w)
           | Inr cfg \<Rightarrow>
              (case hisat_2_align_seq_reads e cfg w of
                 (Inl err, w1) \<Rightarrow> (Inl err, w1)
               | (Inr sams, w1) \<Rightarrow>
                  (case samtools_view e sams cfg w1 of
                     (Inl err, w2) \<Rightarrow> (Inl err, w2)
                   | (Inr bams, w2) \<Rightarrow>
                      (case samtools_sort e bams cfg w2 of
                         (Inl err, w3) \<Rightarrow> (Inl err, w3)
                       | (Inr sort_bams, w3) \<Rightarrow>
                           featurecounts_all_samples e sort_bams cfg w3)))))
      else (Inl (UnrecognizedOption (argv ! 1)), w))"

subsection \<open>Traces and observations\<close>

text \<open>
  What it means for a text to contain the pattern: somewhere in it stand one or more
  digits, a dot, one or more digits and \<open>% overall alignment rate\<close>.
\<close>

definition has_rate_pattern :: "string \<Rightarrow> bool" where
  "has_rate_pattern s =
     (\<exists>pre d1 d2 post.
        s = pre @ d1 @ ''.'' @ d2 @ ''% overall alignment rate'' @ post \<and>
        d1 \<noteq> [] \<and> d2 \<noteq> [] \<and> list_all isdigit09 d1 \<and> list_all isdigit09 d2)"

text \<open>The captured text holds a rate that passes the gate of the loop body.\<close>

definition rate_ok :: "env \<Rightarrow> string \<Rightarrow> bool" where
  "rate_ok e out =
     (case search out of None \<Rightarrow> False | Some g \<Rightarrow> \<not> float_lt_int (py_float e g) 70)"

text \<open>
  The events of one pass through the loop body of the alignment stage that reaches
  its end: the aligner is started, the log is written and, when the read file is to be
  compressed, the \<^verbatim>\<open>.gz\<close> file is written and the read file removed.
\<close>

definition align_events :: "int \<Rightarrow> string \<Rightarrow> bool \<Rightarrow> string \<Rightarrow> event list" where
  "align_events t i gz x =
     [Launch (hisat2_cmd t i x), Wrote (fst (splitext x) @ ''.align.log'')] @
     (if gz then [Wrote (x @ ''.gz''), Removed x] else [])"

text \<open>The commands started and the files opened for writing, in a list of events.\<close>

fun launched :: "event list \<Rightarrow> string list list" where
  "launched [] = []"
| "launched (Launch cmd # evs) = cmd # launched evs"
| "launched (Wrote p # evs) = launched evs"
| "launched (Removed p # evs) = launched evs"

fun written :: "event list \<Rightarrow> path list" where
  "written [] = []"
| "written (Wrote p # evs) = p # written evs"
| "written (Launch cmd # evs) = written evs"
| "written (Removed p # evs) = written evs"

text \<open>The events a run added, given the world before and the world after.\<close>

definition new_events :: "world \<Rightarrow> world \<Rightarrow> event list" where
  "new_events w w' = drop (length (events w)) (events w')"

text \<open>
  The aligner invocations the alignment stage makes on a list of inputs, in order:
  for each one its exit code, its captured text and whether the read file is present
  once the aligner has finished. The list ends with the invocation after which the
  stage raises.
\<close>

fun align_observations :: "env \<Rightarrow> config \<Rightarrow> string list \<Rightarrow> world \<Rightarrow> (int \<times> string \<times> bool) list" where
  "align_observations e c [] w = []"
| "align_observations e c (x # xs) w =
     (case (max_cpu_threads c, hisat2_index_filename_prefix c) of
        (Some t, Some i) \<Rightarrow>
          (case launch e (hisat2_cmd t i x) w of
             ((rc, out), w1) \<Rightarrow>
               (rc, out, files w1 x \<noteq> None) #
               (case align_body e c x [] w of
                  (Inr sams, w') \<Rightarrow> align_observations e c xs w'
                | (Inl err, w') \<Rightarrow> []))
      | _ \<Rightarrow> [])"

text \<open>The errors that say the configuration could not be found or lacks a key.\<close>

definition config_error :: "error \<Rightarrow> bool" where
  "config_error err =
     (case err of ConfigNotFound p \<Rightarrow> True | KeyError k \<Rightarrow> True | _ \<Rightarrow> False)"

subsection \<open>A scripted environment\<close>

text \<open>
  An environment to run the model in: a script gives the exit code and the text of
  every command line, the tools leave the files as they are, and \<open>decimal_float\<close> is
  the exact value of the decimal text, which agrees with \<^verbatim>\<open>float()\<close> wherever that
  value is a double.
\<close>

definition digits_value :: "string \<Rightarrow> nat" where
  "digits_value ds = foldl (\<lambda>a c. 10 * a + (of_char c - 48)) 0 ds"

definition decimal_float :: "string \<Rightarrow> pyfloat" where
  "decimal_float s =
     (let ip = takeWhile (\<lambda>c. c \<noteq> CHR ''.'') s;
          fp = drop 1 (dropWhile (\<lambda>c. c \<noteq> CHR ''.'') s)
      in Finite (of_nat (digits_value ip) + of_nat (digits_value fp) / 10 ^ length fp))"

definition scripted_env :: "(string list \<Rightarrow> int \<times> string) \<Rightarrow> env" where
  "scripted_env script =
     \<lparr>run = (\<lambda>cmd fs. case script cmd of (rc, out) \<Rightarrow> (rc, out, fs)),
      py_float = decimal_float, buffer_size = 8192\<rparr>"

definition empty_world :: world where
  "empty_world = \<lparr>files = Map.empty, events = []\<rparr>"

text \<open>
  A script for sample runs: the aligner reports a rate of 61.50 for \<open>low.fq\<close> and of
  70.00 for \<open>edge.fq\<close>, fails on \<open>bad.fq\<close>, prints no rate for \<open>quiet.fq\<close> and reports
  95.00 otherwise. A sample configuration is the template with other inputs and
  compression flag; a sample world holds the configuration in \<open>c.json\<close> and the read
  files listed.
\<close>

definition demo_env :: env where
  "demo_env =
     scripted_env (\<lambda>cmd.
       if ''low.fq'' \<in> set cmd then (0, ''61.50% overall alignment rate'')
       else if ''edge.fq'' \<in> set cmd then (0, ''70.00% overall alignment rate'')
       else if ''bad.fq'' \<in> set cmd then (1, ''Error: reads file does not look like a FASTQ file'')
       else if ''quiet.fq'' \<in> set cmd then (0, ''no rate in this text'')
       else if ''./featureCounts'' \<in> set cmd then (0, ''counted'')
       else (0, ''95.00% overall alignment rate''))"

definition demo_config :: "string list \<Rightarrow> bool \<Rightarrow> config" where
  "demo_config inputs gz =
     sample_config\<lparr>input_raw_sequence_reads := Some inputs, gzip_fq_after_alignment := Some gz\<rparr>"

definition demo_world :: "config \<Rightarrow> string list \<Rightarrow> world" where
  "demo_world cfg present =
     \<lparr>files = (map_of (map (\<lambda>x. (x, Plain (''reads of '' @ x))) present))(''c.json'' \<mapsto> JsonCfg cfg),
      events = []\<rparr>"

section \<open>Properties of the palette helper\<close>

lemma upt_shift: "map f [0..<Suc m] = f 0 # map (\<lambda>i. f (Suc i)) [0..<m]"
  by (simp add: upt_conv_Cons map_Suc_upt[symmetric] del: upt_Suc)

lemma zip_cycle_nth:
  assumes "saved \<noteq> []" and "k \<le> length saved"
  shows "map snd (zip_cycle ns (drop k saved) saved) =
         map (\<lambda>i. saved ! ((k + i) mod length saved)) [0..<length ns]"
  using assms
proof (induction ns arbitrary: k)
  case Nil
  then show ?case by simp
next
  case (Cons n ns)
  let ?f = "\<lambda>k i. saved ! ((k + i) mod length saved)"
  have len: "length (n # ns) = Suc (length ns)" by simp
  show ?case
  proof (cases "k < length saved")
    case True
    then have d: "drop k saved = saved ! k # drop (Suc k) saved"
      by (simp add: Cons_nth_drop_Suc)
    from True have "Suc k \<le> length saved" by simp
    from Cons.IH[OF Cons.prems(1) this]
    have ih: "map snd (zip_cycle ns (drop (Suc k) saved) saved) = map (?f (Suc k)) [0..<length ns]" .
    have "map snd (zip_cycle (n # ns) (drop k saved) saved) = saved ! k # map (?f (Suc k)) [0..<length ns]"
      by (simp only: d zip_cycle.simps list.map snd_conv ih)
    also have "\<dots> = map (?f k) [0..<length (n # ns)]"
      unfolding len upt_shift using True by simp
    finally show ?thesis .
  next
    case False
    with Cons.prems have k: "k = length saved" by simp
    obtain c cur where s: "saved = c # cur"
      using Cons.prems(1) by (cases saved) auto
    have one: "Suc 0 \<le> length saved" using s by simp
    have dr: "drop (Suc 0) saved = cur" using s by simp
    from Cons.IH[OF Cons.prems(1) one]
    have ih: "map snd (zip_cycle ns cur saved) = map (?f (Suc 0)) [0..<length ns]"
      unfolding dr .
    have "map snd (zip_cycle (n # ns) (drop k saved) saved) = map snd (zip_cycle (n # ns) [] (c # cur))"
      by (simp add: k s)
    also have "\<dots> = c # map snd (zip_cycle ns cur saved)"
      by (simp add: s)
    also have "\<dots> = saved ! 0 # map (?f (Suc 0)) [0..<length ns]"
      by (simp only: ih) (simp add: s)
    also have "\<dots> = map (?f k) [0..<length (n # ns)]"
    proof -
      have "Suc (length saved + x) mod length saved = Suc x mod length saved" for x
        by (metis add_Suc_right mod_add_self1)
      then show ?thesis
        unfolding len upt_shift by (simp add: k)
    qed
    finally show ?thesis .
  qed
qed

text \<open>
  C9. For every \<open>n_colors \<ge> 0\<close> and either of the two defined colour sets,
  \<open>get_colors\<close> returns exactly \<open>n_colors\<close> strings, the \<open>i\<close>-th being the entry
  \<open>i mod 7\<close> of the chosen palette, which has seven entries; for every other colour
  set name it raises the error and returns no colours.
\<close>

theorem get_colors_cyclic:
  "(0 \<le> n \<and> cs \<in> {''seq7'', ''nonseq7''} \<longrightarrow>
      (\<exists>pal warned cols.
         map_of color_sets cs = Some pal \<and> length pal = 7 \<and>
         get_colors n cs = Inr (warned, cols) \<and>
         int (length cols) = n \<and>
         (\<forall>i < length cols. cols ! i = pal ! (i mod 7))))
   \<and> (cs \<notin> {''seq7'', ''nonseq7''} \<longrightarrow> get_colors n cs = Inl (ColorSetNotDefined cs))"
proof (intro conjI impI)
  assume a: "0 \<le> n \<and> cs \<in> {''seq7'', ''nonseq7''}"
  then obtain pal where pal: "map_of color_sets cs = Some pal" "length pal = 7"
    by (auto simp: color_sets_def)
  then have ne: "pal \<noteq> []" by auto
  define cols where "cols = map snd (zip_cycle (range n) pal pal)"
  have "cols = map (\<lambda>i. pal ! ((0 + i) mod length pal)) [0..<length (range n)]"
    using zip_cycle_nth[OF ne, of 0 "range n"] by (simp add: cols_def)
  then have c: "cols = map (\<lambda>i. pal ! (i mod 7)) [0..<nat n]"
    by (simp add: pal range_def)
  have g: "get_colors n cs = Inr (n > 7, cols)"
    by (simp add: get_colors_def pal cols_def)
  have l: "int (length cols) = n" using a by (simp add: c)
  have "\<forall>i < length cols. cols ! i = pal ! (i mod 7)" by (simp add: c)
  with pal g l show "\<exists>pal warned cols.
         map_of color_sets cs = Some pal \<and> length pal = 7 \<and>
         get_colors n cs = Inr (warned, cols) \<and>
         int (length cols) = n \<and>
         (\<forall>i < length cols. cols ! i = pal ! (i mod 7))"
    by blast
next
  assume "cs \<notin> {''seq7'', ''nonseq7''}"
  then show "get_colors n cs = Inl (ColorSetNotDefined cs)"
    by (simp add: get_colors_def color_sets_def)
qed

theorem get_colors_cyclic_witness:
  "(\<exists>pal warned cols.
      map_of color_sets ''seq7'' = Some pal \<and> length pal = 7 \<and>
      get_colors 9 ''seq7'' = Inr (warned, cols) \<and>
      int (length cols) = 9 \<and>
      (\<forall>i < length cols. cols ! i = pal ! (i mod 7)))
   \<and> get_colors 9 ''viridis'' = Inl (ColorSetNotDefined ''viridis'')"
  using get_colors_cyclic[of 9 "''seq7''"] get_colors_cyclic[of 9 "''viridis''"]
  by simp

section \<open>Properties of the cache file name\<close>

lemma pickle_chars_ok: "filter pf_char_ok ''.pickle'' = ''.pickle''"
  by (simp add: pf_char_ok_def isalnum_def)

text \<open>
  C10. Whatever the function name and the arguments, the cache file name holds only
  characters that are alphanumeric or one of \<open>._- \<close>: it is the underlying name with
  every other character dropped. It ends with \<open>.pickle\<close>, and two distinct argument
  lists can give the same file name.
\<close>

theorem get_pf_name_chars:
  "(\<forall>c \<in> set (get_pf_name fname args kwargs). isalnum c \<or> c \<in> set ''._- '')
   \<and> get_pf_name fname args kwargs =
       filter (\<lambda>c. isalnum c \<or> c \<in> set ''._- '') (pf_raw_name fname args kwargs)
   \<and> suffix ''.pickle'' (get_pf_name fname args kwargs)
   \<and> (\<exists>args1 args2. args1 \<noteq> args2 \<and>
         get_pf_name fname args1 kwargs = get_pf_name fname args2 kwargs)"
proof (intro conjI)
  show "\<forall>c \<in> set (get_pf_name fname args kwargs). isalnum c \<or> c \<in> set ''._- ''"
    by (simp add: get_pf_name_def pf_char_ok_def)
  have "pf_char_ok = (\<lambda>c. isalnum c \<or> c \<in> set ''._- '')"
    by (rule ext) (simp add: pf_char_ok_def)
  then show "get_pf_name fname args kwargs =
       filter (\<lambda>c. isalnum c \<or> c \<in> set ''._- '') (pf_raw_name fname args kwargs)"
    by (simp add: get_pf_name_def)
  have "\<exists>pre. pf_raw_name fname args kwargs = pre @ ''.pickle''"
    by (simp add: pf_raw_name_def)
  then obtain pre where "pf_raw_name fname args kwargs = pre @ ''.pickle''" ..
  then have "get_pf_name fname args kwargs = filter pf_char_ok pre @ ''.pickle''"
    unfolding get_pf_name_def using pickle_chars_ok by (simp only: filter_append)
  then show "suffix ''.pickle'' (get_pf_name fname args kwargs)"
    unfolding suffix_def by blast
  have "pf_raw_name fname [''a'', ''b''] kwargs = pf_raw_name fname [''a_b''] kwargs"
    by (simp add: pf_raw_name_def)
  then have "get_pf_name fname [''a'', ''b''] kwargs = get_pf_name fname [''a_b''] kwargs"
    by (simp add: get_pf_name_def)
  moreover have "[''a'', ''b''] \<noteq> [''a_b'']" by simp
  ultimately show "\<exists>args1 args2. args1 \<noteq> args2 \<and>
         get_pf_name fname args1 kwargs = get_pf_name fname args2 kwargs"
    by blast
qed

theorem get_pf_name_chars_witness:
  "get_pf_name ''f'' [''1/2'', ''x y''] [(''k'', ''v*'')] = ''f_12_x y_k-v.pickle''
   \<and> set (get_pf_name ''f'' [''1/2'', ''x y''] [(''k'', ''v*'')]) \<subseteq> {c. isalnum c \<or> c \<in> set ''._- ''}
   \<and> suffix ''.pickle'' (get_pf_name ''f'' [''1/2'', ''x y''] [(''k'', ''v*'')])"
proof -
  have "get_pf_name ''f'' [''1/2'', ''x y''] [(''k'', ''v*'')] = ''f_12_x y_k-v.pickle''"
    by (simp add: get_pf_name_def pf_raw_name_def pf_char_ok_def isalnum_def)
  then show ?thesis
    using get_pf_name_chars[of "''f''" "[''1/2'', ''x y'']" "[(''k'', ''v*'')]"] by blast
qed

section \<open>Properties of the library functions\<close>

lemma rfind_split:
  assumes "ch \<in> set p"
  shows "\<exists>a b. p = a @ ch # b \<and> ch \<notin> set b \<and> rfind ch p = int (length a)"
proof -
  from split_list_last[OF assms] obtain a b where p: "p = a @ ch # b" and b: "ch \<notin> set b"
    by blast
  have "takeWhile (\<lambda>x. x \<noteq> ch) (rev p) = rev b"
    using b by (auto simp: p takeWhile_tail)
  then have "rfind ch p = int (length a)"
    using assms by (simp add: rfind_def p)
  with p b show ?thesis by blast
qed

lemma rfind_absent: "ch \<notin> set p \<Longrightarrow> rfind ch p = - 1"
  by (simp add: rfind_def)

lemma splitext_loop_cases:
  "splitext_loop p d f = (p, []) \<or> splitext_loop p d f = (take (nat d) p, drop (nat d) p)"
proof (induction p d f rule: splitext_loop.induct)
  case (1 p dotIndex filenameIndex)
  then show ?case
    by (subst (1 2) splitext_loop.simps) auto
qed

lemma splitext_cases:
  "splitext p = (p, []) \<or>
   (\<exists>a b. p = a @ CHR ''.'' # b \<and> CHR ''.'' \<notin> set b \<and> splitext p = (a, CHR ''.'' # b))"
proof (cases "CHR ''.'' \<in> set p")
  case False
  then have "rfind CHR ''.'' p = - 1" by (rule rfind_absent)
  moreover have "- 1 \<le> rfind CHR ''/'' p"
    using length_takeWhile_le[of "\<lambda>x. x \<noteq> CHR ''/''" "rev p"] by (simp add: rfind_def)
  ultimately show ?thesis by (simp add: splitext_def Let_def)
next
  case True
  from rfind_split[OF this] obtain a b where
    p: "p = a @ CHR ''.'' # b" and b: "CHR ''.'' \<notin> set b" and
    r: "rfind CHR ''.'' p = int (length a)" by blast
  have td: "take (nat (int (length a))) p = a" "drop (nat (int (length a))) p = CHR ''.'' # b"
    by (simp_all add: p)
  show ?thesis
  proof (cases "rfind CHR ''.'' p > rfind CHR ''/'' p")
    case False
    then show ?thesis by (simp add: splitext_def Let_def)
  next
    case True
    then have "splitext p = splitext_loop p (int (length a)) (rfind CHR ''/'' p + 1)"
      by (simp add: splitext_def Let_def r)
    with splitext_loop_cases[of p "int (length a)" "rfind CHR ''/'' p + 1"] td p b
    show ?thesis by metis
  qed
qed

lemma splitext_append: "fst (splitext p) @ snd (splitext p) = p"
  using splitext_cases[of p] by auto

lemma log_file_not_input: "fst (splitext x) @ ''.align.log'' \<noteq> x"
proof
  assume eq: "fst (splitext x) @ ''.align.log'' = x"
  from splitext_cases[of x] show False
  proof
    assume "splitext x = (x, [])"
    with eq show False by simp
  next
    assume "\<exists>a b. x = a @ CHR ''.'' # b \<and> CHR ''.'' \<notin> set b \<and> splitext x = (a, CHR ''.'' # b)"
    then obtain a b where x: "x = a @ CHR ''.'' # b" and b: "CHR ''.'' \<notin> set b"
      and s: "splitext x = (a, CHR ''.'' # b)" by blast
    from eq s x have "a @ ''.align.log'' = a @ CHR ''.'' # b" by simp
    then have "b = ''align.log''" by simp
    with b show False by simp
  qed
qed

lemma log_file_not_gz: "fst (splitext x) @ ''.align.log'' \<noteq> x @ ''.gz''"
proof
  assume eq: "fst (splitext x) @ ''.align.log'' = x @ ''.gz''"
  then have "last (fst (splitext x) @ ''.align.log'') = last (x @ ''.gz'')" by simp
  then show False by simp
qed

lemma match_here_sound:
  assumes "match_here s = Some g"
  shows "\<exists>d1 d2 post. s = d1 @ ''.'' @ d2 @ ''% overall alignment rate'' @ post \<and>
           g = d1 @ ''.'' @ d2 \<and> d1 \<noteq> [] \<and> d2 \<noteq> [] \<and>
           list_all isdigit09 d1 \<and> list_all isdigit09 d2"
proof -
  define d1 where "d1 = takeWhile isdigit09 s"
  define r1 where "r1 = dropWhile isdigit09 s"
  have s: "s = d1 @ r1" by (simp add: d1_def r1_def)
  from assms have d1: "d1 \<noteq> []"
    by (auto simp: match_here_def Let_def d1_def split: if_splits)
  from assms d1 obtain r2 where r1: "r1 = CHR ''.'' # r2"
    by (auto simp: match_here_def Let_def d1_def r1_def split: if_splits list.splits)
  define d2 where "d2 = takeWhile isdigit09 r2"
  define r3 where "r3 = dropWhile isdigit09 r2"
  have r2: "r2 = d2 @ r3" by (simp add: d2_def r3_def)
  from assms d1 r1 have rest: "d2 \<noteq> [] \<and> take 24 r3 = ''% overall alignment rate'' \<and> g = d1 @ ''.'' @ d2"
    unfolding match_here_def Let_def d1_def[symmetric] r1_def[symmetric]
    by (simp add: d2_def r3_def split: if_splits)
  then have "r3 = ''% overall alignment rate'' @ drop 24 r3"
    by (metis append_take_drop_id)
  moreover have "list_all isdigit09 d1" "list_all isdigit09 d2"
    by (auto simp: d1_def d2_def list_all_iff dest: set_takeWhileD)
  ultimately show ?thesis
    using s r1 r2 rest d1 by (metis append_Cons append_Nil)
qed

lemma match_here_complete:
  assumes "d1 \<noteq> []" "d2 \<noteq> []" "list_all isdigit09 d1" "list_all isdigit09 d2"
  shows "match_here (d1 @ ''.'' @ d2 @ ''% overall alignment rate'' @ post) = Some (d1 @ ''.'' @ d2)"
proof -
  let ?r3 = "''% overall alignment rate'' @ post"
  let ?r2 = "d2 @ ?r3"
  have nd: "\<not> isdigit09 CHR ''.''" "\<not> isdigit09 CHR ''%''" by (simp_all add: isdigit09_def)
  have a1: "\<And>x. x \<in> set d1 \<Longrightarrow> isdigit09 x" and a2: "\<And>x. x \<in> set d2 \<Longrightarrow> isdigit09 x"
    using assms by (auto simp: list_all_iff)
  have t1: "takeWhile isdigit09 (d1 @ CHR ''.'' # ?r2) = d1"
    using a1 nd by (simp add: takeWhile_append2)
  have dr1: "dropWhile isdigit09 (d1 @ CHR ''.'' # ?r2) = CHR ''.'' # ?r2"
    using a1 nd by (simp add: dropWhile_append2)
  have t2: "takeWhile isdigit09 ?r2 = d2"
    using a2 nd by (simp add: takeWhile_append2)
  have dr2: "dropWhile isdigit09 ?r2 = ?r3"
    using a2 nd by (simp add: dropWhile_append2)
  have "match_here (d1 @ CHR ''.'' # ?r2) = Some (d1 @ ''.'' @ d2)"
    unfolding match_here_def Let_def t1 dr1 using assms(1,2)
    by (simp add: t2 dr2 del: append.simps)
  then show ?thesis by simp
qed

lemma search_append: "search rest \<noteq> None \<Longrightarrow> search (pre @ rest) \<noteq> None"
  by (induction pre) (auto split: option.splits)

lemma search_match_here: "match_here s = Some g \<Longrightarrow> search s \<noteq> None"
  by (cases s) (auto simp: match_here_def)

lemma search_sound:
  "search s = Some g \<Longrightarrow> \<exists>pre rest. s = pre @ rest \<and> match_here rest = Some g"
proof (induction s)
  case Nil
  then show ?case by simp
next
  case (Cons c cs)
  show ?case
  proof (cases "match_here (c # cs)")
    case (Some g')
    with Cons.prems have "match_here (c # cs) = Some g" by simp
    then show ?thesis by (metis append_Nil)
  next
    case None
    with Cons.prems have "search cs = Some g" by simp
    from Cons.IH[OF this] obtain pre rest where "cs = pre @ rest" "match_here rest = Some g"
      by blast
    then have "c # cs = (c # pre) @ rest" by simp
    with \<open>match_here rest = Some g\<close> show ?thesis by blast
  qed
qed

lemma search_iff_pattern: "(search s \<noteq> None) = has_rate_pattern s"
proof
  assume "search s \<noteq> None"
  then obtain g where "search s = Some g" by auto
  from search_sound[OF this] obtain pre rest where s: "s = pre @ rest" and m: "match_here rest = Some g"
    by blast
  from match_here_sound[OF m] s show "has_rate_pattern s"
    unfolding has_rate_pattern_def by blast
next
  assume "has_rate_pattern s"
  then obtain pre d1 d2 post where
    s: "s = pre @ d1 @ ''.'' @ d2 @ ''% overall alignment rate'' @ post" and
    d: "d1 \<noteq> []" "d2 \<noteq> []" "list_all isdigit09 d1" "list_all isdigit09 d2"
    unfolding has_rate_pattern_def by blast
  from match_here_complete[OF d] have "search (d1 @ ''.'' @ d2 @ ''% overall alignment rate'' @ post) \<noteq> None"
    by (rule search_match_here)
  then show "search s \<noteq> None"
    unfolding s by (rule search_append)
qed

section \<open>Properties of the alignment stage\<close>

lemma align_body_ok:
  assumes "max_cpu_threads c = Some t" "hisat2_index_filename_prefix c = Some i"
    and "gzip_fq_after_alignment c = Some gz"
    and "run e (hisat2_cmd t i x) (files w) = (0, out, fs)"
    and "search out = Some g" and "\<not> float_lt_int (py_float e g) 70"
    and "gz \<Longrightarrow> fs x = Some src"
  shows "align_body e c x sams w =
    (Inr (sams @ [fst (splitext x) @ ''.sam'']),
     w\<lparr>files :=
         (if gz then
            (fs(fst (splitext x) @ ''.align.log'' \<mapsto> Plain (join (hisat2_cmd t i x) @ newline @ out),
                x @ ''.gz'' \<mapsto> Gz src))(x := None)
          else fs(fst (splitext x) @ ''.align.log'' \<mapsto> Plain (join (hisat2_cmd t i x) @ newline @ out))),
       events := events w @
         [Launch (hisat2_cmd t i x), Wrote (fst (splitext x) @ ''.align.log'')] @
         (if gz then [Wrote (x @ ''.gz''), Removed x] else [])\<rparr>)"
proof (cases gz)
  case False
  with assms show ?thesis
    by (simp add: align_body_def Let_def launch_def write_file_def)
next
  case True
  with assms have src: "fs x = Some src" by simp
  have ne: "fst (splitext x) @ ''.align.log'' \<noteq> x" by (rule log_file_not_input)
  from True assms(1-6) src ne show ?thesis
    by (simp add: align_body_def Let_def launch_def write_file_def gzip_fq_def remove_def)
qed

lemma align_body_tool_failed:
  assumes "max_cpu_threads c = Some t" "hisat2_index_filename_prefix c = Some i"
    and "run e (hisat2_cmd t i x) (files w) = (rc, out, fs)" and "rc \<noteq> 0"
  shows "align_body e c x sams w =
    (Inl (ToolFailed ''hisat2'' rc (Some x)),
     w\<lparr>files := fs, events := events w @ [Launch (hisat2_cmd t i x)]\<rparr>)"
  using assms by (simp add: align_body_def Let_def launch_def)

lemma align_body_no_pattern:
  assumes "max_cpu_threads c = Some t" "hisat2_index_filename_prefix c = Some i"
    and "run e (hisat2_cmd t i x) (files w) = (0, out, fs)" and "search out = None"
  shows "align_body e c x sams w =
    (Inl AttributeError, w\<lparr>files := fs, events := events w @ [Launch (hisat2_cmd t i x)]\<rparr>)"
  using assms by (simp add: align_body_def Let_def launch_def)

lemma align_body_low_rate:
  assumes "max_cpu_threads c = Some t" "hisat2_index_filename_prefix c = Some i"
    and "run e (hisat2_cmd t i x) (files w) = (0, out, fs)" and "search out = Some g"
    and "float_lt_int (py_float e g) 70"
  shows "align_body e c x sams w =
    (Inl (RateBelowThreshold (py_float e g) x),
     w\<lparr>files := fs, events := events w @ [Launch (hisat2_cmd t i x)]\<rparr>)"
  using assms by (simp add: align_body_def Let_def launch_def)

lemma align_body_gzip_missing:
  assumes "max_cpu_threads c = Some t" "hisat2_index_filename_prefix c = Some i"
    and "gzip_fq_after_alignment c = Some True"
    and "run e (hisat2_cmd t i x) (files w) = (0, out, fs)"
    and "search out = Some g" and "\<not> float_lt_int (py_float e g) 70"
    and "fs x = None"
  shows "fst (align_body e c x sams w) = Inl (FileNotFoundError x)"
  using assms log_file_not_input[of x]
  by (simp add: align_body_def Let_def launch_def write_file_def gzip_fq_def)

lemma align_body_InrD:
  assumes "align_body e c x sams w = (Inr s', w')"
  shows "\<exists>t i gz out fs g.
    max_cpu_threads c = Some t \<and> hisat2_index_filename_prefix c = Some i \<and>
    gzip_fq_after_alignment c = Some gz \<and>
    run e (hisat2_cmd t i x) (files w) = (0, out, fs) \<and>
    search out = Some g \<and> \<not> float_lt_int (py_float e g) 70 \<and>
    (gz \<longrightarrow> fs x \<noteq> None)"
proof -
  from assms obtain t where t: "max_cpu_threads c = Some t"
    by (cases "max_cpu_threads c") (auto simp: align_body_def Let_def)
  from assms t obtain i where i: "hisat2_index_filename_prefix c = Some i"
    by (cases "hisat2_index_filename_prefix c") (auto simp: align_body_def Let_def)
  obtain rc out fs where r: "run e (hisat2_cmd t i x) (files w) = (rc, out, fs)"
    by (cases "run e (hisat2_cmd t i x) (files w)") auto
  have rc: "rc = 0"
  proof (rule ccontr)
    assume "rc \<noteq> 0"
    from align_body_tool_failed[OF t i r this] assms show False by simp
  qed
  obtain g where g: "search out = Some g"
  proof (cases "search out")
    case None
    from align_body_no_pattern[OF t i r[unfolded rc] None] assms show ?thesis by simp
  next
    case (Some g)
    then show ?thesis by (rule that)
  qed
  have f: "\<not> float_lt_int (py_float e g) 70"
  proof
    assume "float_lt_int (py_float e g) 70"
    from align_body_low_rate[OF t i r[unfolded rc] g this] assms show False by simp
  qed
  from assms t i r rc g f obtain gz where gz: "gzip_fq_after_alignment c = Some gz"
    by (cases "gzip_fq_after_alignment c") (auto simp: align_body_def Let_def launch_def)
  have "gz \<longrightarrow> fs x \<noteq> None"
  proof (intro impI notI)
    assume "gz" "fs x = None"
    with gz have "gzip_fq_after_alignment c = Some True" by simp
    from align_body_gzip_missing[OF t i this r[unfolded rc] g f \<open>fs x = None\<close>, of sams] assms
    show False by simp
  qed
  with t i gz r rc g f show ?thesis by blast
qed

lemma launched_append: "launched (a @ b) = launched a @ launched b"
  by (induction a rule: launched.induct) simp_all

lemma written_append: "written (a @ b) = written a @ written b"
  by (induction a rule: written.induct) simp_all

lemma launched_align_events: "launched (align_events t i gz x) = [hisat2_cmd t i x]"
  by (simp add: align_events_def)

lemma written_align_events:
  "written (align_events t i gz x) =
     (fst (splitext x) @ ''.align.log'') # (if gz then [x @ ''.gz''] else [])"
  by (simp add: align_events_def)

lemma launched_concat_align:
  "launched (concat (map (align_events t i gz) xs)) = map (hisat2_cmd t i) xs"
  by (induction xs) (simp_all add: launched_append launched_align_events)

lemma written_concat_align_no_bam:
  "p \<in> set (written (concat (map (align_events t i gz) xs))) \<Longrightarrow> \<not> suffix ''.bam'' p"
proof (induction xs)
  case Nil
  then show ?case by simp
next
  case (Cons x xs)
  have a: "\<not> suffix ''.bam'' (b @ ''.align.log'')" for b :: string
  proof
    assume "suffix ''.bam'' (b @ ''.align.log'')"
    then obtain z where "b @ ''.align.log'' = z @ ''.bam''" unfolding suffix_def by blast
    then have "last (b @ ''.align.log'') = last (z @ ''.bam'')" by simp
    then show False by simp
  qed
  have g: "\<not> suffix ''.bam'' (b @ ''.gz'')" for b :: string
  proof
    assume "suffix ''.bam'' (b @ ''.gz'')"
    then obtain z where "b @ ''.gz'' = z @ ''.bam''" unfolding suffix_def by blast
    then have "last (b @ ''.gz'') = last (z @ ''.bam'')" by simp
    then show False by simp
  qed
  from Cons show ?case
    by (auto simp: written_append written_align_events a g split: if_splits)
qed

lemma align_body_InrD_full:
  assumes "align_body e c x sams w = (Inr s', w')"
  shows "\<exists>t i gz.
    max_cpu_threads c = Some t \<and> hisat2_index_filename_prefix c = Some i \<and>
    gzip_fq_after_alignment c = Some gz \<and>
    s' = sams @ [fst (splitext x) @ ''.sam''] \<and>
    events w' = events w @ align_events t i gz x"
proof -
  from align_body_InrD[OF assms] obtain t i gz out fs g where
    h: "max_cpu_threads c = Some t" "hisat2_index_filename_prefix c = Some i"
       "gzip_fq_after_alignment c = Some gz"
       "run e (hisat2_cmd t i x) (files w) = (0, out, fs)"
       "search out = Some g" "\<not> float_lt_int (py_float e g) 70" and
    src: "gz \<longrightarrow> fs x \<noteq> None" by blast
  obtain src where "gz \<Longrightarrow> fs x = Some src"
    using src by (cases "fs x") auto
  from align_body_ok[OF h this, of sams] assms
  have "s' = sams @ [fst (splitext x) @ ''.sam''] \<and> events w' = events w @ align_events t i gz x"
    by (auto simp: align_events_def)
  with h show ?thesis by blast
qed

lemma align_loop_append:
  "align_loop e c (pre @ rest) sams w =
     (case align_loop e c pre sams w of
        (Inl err, w') \<Rightarrow> (Inl err, w')
      | (Inr s, w') \<Rightarrow> align_loop e c rest s w')"
  by (induction pre arbitrary: sams w) (auto split: prod.splits sum.splits)

lemma align_loop_InrD:
  assumes "align_loop e c xs sams w = (Inr s', w')"
    and "max_cpu_threads c = Some t" "hisat2_index_filename_prefix c = Some i"
    and "gzip_fq_after_alignment c = Some gz"
  shows "s' = sams @ map (\<lambda>x. fst (splitext x) @ ''.sam'') xs \<and>
         events w' = events w @ concat (map (align_events t i gz) xs)"
  using assms(1)
proof (induction xs arbitrary: sams w)
  case Nil
  then show ?case by simp
next
  case (Cons x xs)
  from Cons.prems obtain s1 w1 where
    b: "align_body e c x sams w = (Inr s1, w1)" and l: "align_loop e c xs s1 w1 = (Inr s', w')"
    by (auto split: prod.splits sum.splits)
  from align_body_InrD_full[OF b] assms(2-4) have
    "s1 = sams @ [fst (splitext x) @ ''.sam'']" "events w1 = events w @ align_events t i gz x"
    by auto
  with Cons.IH[OF l] show ?case by simp
qed

lemma align_loop_first_keys:
  assumes "align_loop e c (x # xs) sams w = (Inr s', w')"
  shows "\<exists>t i gz. max_cpu_threads c = Some t \<and> hisat2_index_filename_prefix c = Some i \<and>
           gzip_fq_after_alignment c = Some gz"
proof -
  from assms obtain s1 w1 where "align_body e c x sams w = (Inr s1, w1)"
    by (auto split: prod.splits sum.splits)
  from align_body_InrD_full[OF this] show ?thesis by blast
qed

lemma new_events_append: "events w' = events w @ new \<Longrightarrow> new_events w w' = new"
  by (simp add: new_events_def)

lemma align_body_launches:
  assumes "align_body e c x sams w = (r, w')"
  shows "\<exists>new. events w' = events w @ new \<and>
           (launched new = [] \<or>
            (\<exists>t i. max_cpu_threads c = Some t \<and> hisat2_index_filename_prefix c = Some i \<and>
                   launched new = [hisat2_cmd t i x]))"
proof (cases "max_cpu_threads c")
  case None
  with assms have "events w' = events w @ []" by (simp add: align_body_def Let_def)
  then show ?thesis by force
next
  case t: (Some t)
  show ?thesis
  proof (cases "hisat2_index_filename_prefix c")
    case None
    with assms t have "events w' = events w @ []" by (simp add: align_body_def Let_def)
    then show ?thesis by force
  next
    case i: (Some i)
    have "\<exists>more. events w' = events w @ Launch (hisat2_cmd t i x) # more \<and> launched more = []"
      using assms t i
      by (auto simp: align_body_def Let_def launch_def gzip_fq_def remove_def write_file_def
               split: option.splits prod.splits sum.splits if_splits)
    then obtain more where "events w' = events w @ Launch (hisat2_cmd t i x) # more"
      "launched more = []" by blast
    then have "events w' = events w @ (Launch (hisat2_cmd t i x) # more) \<and>
               launched (Launch (hisat2_cmd t i x) # more) = [hisat2_cmd t i x]" by simp
    with t i show ?thesis by blast
  qed
qed

lemma align_loop_launches:
  assumes "align_loop e c xs sams w = (r, w')"
  shows "\<exists>new. events w' = events w @ new \<and>
           (\<forall>cmd \<in> set (launched new).
              \<exists>x t i. x \<in> set xs \<and> max_cpu_threads c = Some t \<and>
                      hisat2_index_filename_prefix c = Some i \<and> cmd = hisat2_cmd t i x)"
  using assms
proof (induction xs arbitrary: sams w)
  case Nil
  then have "events w' = events w @ []" by simp
  then show ?case by force
next
  case (Cons x xs)
  obtain r1 w1 where b: "align_body e c x sams w = (r1, w1)" by (cases "align_body e c x sams w") auto
  from align_body_launches[OF b] obtain n1 where
    n1: "events w1 = events w @ n1" and
    l1: "launched n1 = [] \<or>
         (\<exists>t i. max_cpu_threads c = Some t \<and> hisat2_index_filename_prefix c = Some i \<and>
              launched n1 = [hisat2_cmd t i x])" by blast
  show ?case
  proof (cases r1)
    case (Inl err)
    with Cons.prems b have "w' = w1" by simp
    with n1 l1 show ?thesis by (intro exI[of _ n1]) auto
  next
    case (Inr s1)
    with Cons.prems b have "align_loop e c xs s1 w1 = (r, w')" by simp
    from Cons.IH[OF this] obtain n2 where
      n2: "events w' = events w1 @ n2" and
      l2: "\<forall>cmd \<in> set (launched n2).
              \<exists>x t i. x \<in> set xs \<and> max_cpu_threads c = Some t \<and>
                      hisat2_index_filename_prefix c = Some i \<and> cmd = hisat2_cmd t i x" by blast
    from n1 n2 have "events w' = events w @ (n1 @ n2)" by simp
    moreover have "\<forall>cmd \<in> set (launched (n1 @ n2)).
              \<exists>y t i. y \<in> set (x # xs) \<and> max_cpu_threads c = Some t \<and>
                      hisat2_index_filename_prefix c = Some i \<and> cmd = hisat2_cmd t i y"
    proof
      fix cmd
      assume "cmd \<in> set (launched (n1 @ n2))"
      then consider "cmd \<in> set (launched n1)" | "cmd \<in> set (launched n2)"
        by (auto simp: launched_append)
      then show "\<exists>y t i. y \<in> set (x # xs) \<and> max_cpu_threads c = Some t \<and>
                      hisat2_index_filename_prefix c = Some i \<and> cmd = hisat2_cmd t i y"
      proof cases
        case 1
        with l1 show ?thesis by auto
      next
        case 2
        with l2 obtain y t i where "y \<in> set xs" "max_cpu_threads c = Some t"
          "hisat2_index_filename_prefix c = Some i" "cmd = hisat2_cmd t i y" by blast
        then show ?thesis by auto
      qed
    qed
    ultimately show ?thesis by blast
  qed
qed

lemma rate_ok_pattern: "rate_ok e out \<Longrightarrow> has_rate_pattern out"
  using search_iff_pattern[of out] by (auto simp: rate_ok_def split: option.splits)

section \<open>The claims about the pipeline driver\<close>

text \<open>
  C1. When the rate parsed for an input is below 70, the alignment stage raises the
  rate error for that input and the run ends with it: the aligner has been started
  once for each input up to the failing one and for none after it, no other command
  has been started, and no \<open>.bam\<close> file has been opened for writing. A rate of exactly
  70 passes the gate: the stage goes on to write the log of that input.
\<close>

theorem low_rate_aborts_run:
  assumes "files w p = Some (JsonCfg c)"
    and "input_raw_sequence_reads c = Some (pre @ x # post)"
    and "max_cpu_threads c = Some t" and "hisat2_index_filename_prefix c = Some i"
    and "align_loop e c pre [] w = (Inr sams, w1)"
    and "run e (hisat2_cmd t i x) (files w1) = (0, out, fs)"
    and "search out = Some g"
  shows "(float_lt_int (py_float e g) 70 \<longrightarrow>
            (\<exists>w2. hisat_2_align_seq_reads e c w = (Inl (RateBelowThreshold (py_float e g) x), w2)
              \<and> main e (prog # ''--config'' # p # rest) w
                  = (Inl (RateBelowThreshold (py_float e g) x), w2)
              \<and> launched (new_events w w2) = map (hisat2_cmd t i) (pre @ [x])
              \<and> (\<forall>f \<in> set (written (new_events w w2)). \<not> suffix ''.bam'' f)))
       \<and> (py_float e g = Finite 70 \<longrightarrow>
            (\<forall>r y. fst (align_body e c x sams w1) \<noteq> Inl (RateBelowThreshold r y))
            \<and> (\<exists>more. events (snd (align_body e c x sams w1)) =
                  events w1 @ [Launch (hisat2_cmd t i x), Wrote (fst (splitext x) @ ''.align.log'')] @ more))"
proof (intro conjI impI)
  assume low: "float_lt_int (py_float e g) 70"
  define w2 where "w2 = w1\<lparr>files := fs, events := events w1 @ [Launch (hisat2_cmd t i x)]\<rparr>"
  have body: "align_body e c x sams w1 = (Inl (RateBelowThreshold (py_float e g) x), w2)"
    unfolding w2_def by (rule align_body_low_rate[OF assms(3,4,6,7) low])
  have loop: "align_loop e c (pre @ x # post) [] w = (Inl (RateBelowThreshold (py_float e g) x), w2)"
    by (simp add: align_loop_append assms(5) body)
  then have stage: "hisat_2_align_seq_reads e c w = (Inl (RateBelowThreshold (py_float e g) x), w2)"
    by (simp add: hisat_2_align_seq_reads_def assms(2))
  have m: "main e (prog # ''--config'' # p # rest) w = (Inl (RateBelowThreshold (py_float e g) x), w2)"
    by (simp add: main_def load_config_def assms(1) stage)
  obtain gz where ev1: "events w1 = events w @ concat (map (align_events t i gz) pre)"
  proof (cases pre)
    case Nil
    with assms(5) have "events w1 = events w @ concat (map (align_events t i True) pre)" by simp
    then show ?thesis by (rule that)
  next
    case (Cons y ys)
    from align_loop_first_keys[OF assms(5)[unfolded Cons]] obtain gz where
      "gzip_fq_after_alignment c = Some gz" by blast
    from align_loop_InrD[OF assms(5) assms(3,4) this] show ?thesis using that by blast
  qed
  have "events w2 = events w @ (concat (map (align_events t i gz) pre) @ [Launch (hisat2_cmd t i x)])"
    by (simp add: w2_def ev1)
  then have new: "new_events w w2 = concat (map (align_events t i gz) pre) @ [Launch (hisat2_cmd t i x)]"
    by (rule new_events_append)
  have l: "launched (new_events w w2) = map (hisat2_cmd t i) (pre @ [x])"
    by (simp add: new launched_append launched_concat_align)
  have b: "\<forall>f \<in> set (written (new_events w w2)). \<not> suffix ''.bam'' f"
    using written_concat_align_no_bam[of _ t i gz pre] by (auto simp: new written_append)
  from stage m l b
  show "\<exists>w2. hisat_2_align_seq_reads e c w = (Inl (RateBelowThreshold (py_float e g) x), w2)
              \<and> main e (prog # ''--config'' # p # rest) w
                  = (Inl (RateBelowThreshold (py_float e g) x), w2)
              \<and> launched (new_events w w2) = map (hisat2_cmd t i) (pre @ [x])
              \<and> (\<forall>f \<in> set (written (new_events w w2)). \<not> suffix ''.bam'' f)"
    by blast
next
  assume eq: "py_float e g = Finite 70"
  then have nl: "\<not> float_lt_int (py_float e g) 70" by (simp add: float_lt_int_def)
  from assms(3,4,6,7) nl show "\<forall>r y. fst (align_body e c x sams w1) \<noteq> Inl (RateBelowThreshold r y)"
    by (auto simp: align_body_def Let_def launch_def gzip_fq_def remove_def write_file_def
             split: option.splits prod.splits sum.splits)
  from assms(3,4,6,7) nl
  show "\<exists>more. events (snd (align_body e c x sams w1)) =
          events w1 @ [Launch (hisat2_cmd t i x), Wrote (fst (splitext x) @ ''.align.log'')] @ more"
    by (auto simp: align_body_def Let_def launch_def gzip_fq_def remove_def write_file_def
             split: option.splits prod.splits sum.splits)
qed

theorem low_rate_aborts_run_witness:
  "float_lt_int (py_float demo_env ''61.50'') 70
   \<and> (\<exists>w2. hisat_2_align_seq_reads demo_env (demo_config [''a.fq'', ''low.fq'', ''c.fq''] False)
              (demo_world (demo_config [''a.fq'', ''low.fq'', ''c.fq''] False) [])
            = (Inl (RateBelowThreshold (py_float demo_env ''61.50'') ''low.fq''), w2)
         \<and> main demo_env [''prog'', ''--config'', ''c.json'']
              (demo_world (demo_config [''a.fq'', ''low.fq'', ''c.fq''] False) [])
            = (Inl (RateBelowThreshold (py_float demo_env ''61.50'') ''low.fq''), w2)
         \<and> launched (new_events (demo_world (demo_config [''a.fq'', ''low.fq'', ''c.fq''] False) []) w2)
            = [hisat2_cmd 16 ''index/genome'' ''a.fq'', hisat2_cmd 16 ''index/genome'' ''low.fq''])
   \<and> py_float demo_env ''70.00'' = Finite 70
   \<and> (\<forall>r y. fst (align_body demo_env (demo_config [''edge.fq''] False) ''edge.fq'' []
                    (demo_world (demo_config [''edge.fq''] False) []))
              \<noteq> Inl (RateBelowThreshold r y))"
proof -
  let ?c = "demo_config [''a.fq'', ''low.fq'', ''c.fq''] False"
  let ?w = "demo_world ?c []"
  define w1 where "w1 = snd (align_loop demo_env ?c [''a.fq''] [] ?w)"
  have "fst (align_loop demo_env ?c [''a.fq''] [] ?w) = Inr [''a.sam'']" by code_simp
  then have pre: "align_loop demo_env ?c [''a.fq''] [] ?w = (Inr [''a.sam''], w1)"
    by (simp add: w1_def prod_eq_iff)
  have cfg: "files ?w ''c.json'' = Some (JsonCfg ?c)" by (simp add: demo_world_def)
  have inp: "input_raw_sequence_reads ?c = Some ([''a.fq''] @ ''low.fq'' # [''c.fq''])"
    by (simp add: demo_config_def)
  have t: "max_cpu_threads ?c = Some 16" and i: "hisat2_index_filename_prefix ?c = Some ''index/genome''"
    by (simp_all add: demo_config_def sample_config_def)
  have r: "run demo_env (hisat2_cmd 16 ''index/genome'' ''low.fq'') (files w1)
           = (0, ''61.50% overall alignment rate'', files w1)"
    by (simp add: demo_env_def scripted_env_def hisat2_cmd_def)
  have g: "search ''61.50% overall alignment rate'' = Some ''61.50''" by code_simp
  have low: "float_lt_int (py_float demo_env ''61.50'') 70" by code_simp
  note A = low_rate_aborts_run[OF cfg inp t i pre r g, of "''prog''" "[]"]
  let ?c2 = "demo_config [''edge.fq''] False"
  let ?w2 = "demo_world ?c2 []"
  have cfg2: "files ?w2 ''c.json'' = Some (JsonCfg ?c2)" by (simp add: demo_world_def)
  have inp2: "input_raw_sequence_reads ?c2 = Some ([] @ ''edge.fq'' # [])"
    by (simp add: demo_config_def)
  have t2: "max_cpu_threads ?c2 = Some 16" and i2: "hisat2_index_filename_prefix ?c2 = Some ''index/genome''"
    by (simp_all add: demo_config_def sample_config_def)
  have pre2: "align_loop demo_env ?c2 [] [] ?w2 = (Inr [], ?w2)" by simp
  have s16: "str_int 16 = ''16''" by code_simp
  have r2: "run demo_env (hisat2_cmd 16 ''index/genome'' ''edge.fq'') (files ?w2)
           = (0, ''70.00% overall alignment rate'', files ?w2)"
    by (simp add: demo_env_def scripted_env_def hisat2_cmd_def s16)
  have g2: "search ''70.00% overall alignment rate'' = Some ''70.00''" by code_simp
  have edge: "py_float demo_env ''70.00'' = Finite 70" by code_simp
  note B = low_rate_aborts_run[OF cfg2 inp2 t2 i2 pre2 r2 g2, of "''prog''" "[]"]
  from A low B edge show ?thesis by auto
qed

text \<open>
  C3. When the path after \<open>--config\<close> names no file, the run fails with the
  configuration-not-found error and leaves the world as it was: no subprocess has
  been launched and no stage has run.
\<close>

theorem config_not_found_before_any_tool:
  assumes "files w p = None"
  shows "load_config p w = Inl (ConfigNotFound p)
         \<and> main e (prog # ''--config'' # p # rest) w = (Inl (ConfigNotFound p), w)
         \<and> events (snd (main e (prog # ''--config'' # p # rest) w)) = events w"
  using assms by (simp add: main_def load_config_def)

theorem config_not_found_before_any_tool_witness:
  "files empty_world ''missing.json'' = None
   \<and> main (scripted_env (\<lambda>cmd. (0, ''95.00% overall alignment rate'')))
        [''align_and_count_features.py'', ''--config'', ''missing.json''] empty_world
       = (Inl (ConfigNotFound ''missing.json''), empty_world)
   \<and> events empty_world = []"
  using config_not_found_before_any_tool[of empty_world "''missing.json''"
          "scripted_env (\<lambda>cmd. (0, ''95.00% overall alignment rate''))" "''align_and_count_features.py''" "[]"]
  by (simp add: empty_world_def)

text \<open>
  C4. An invocation of the aligner counts as a success only if its exit code is zero
  and its captured text contains the rate pattern. A nonzero exit code raises the
  tool failure naming the input; an exit code of zero with a text that lacks the
  pattern raises as well.
\<close>

theorem align_success_condition:
  assumes "max_cpu_threads c = Some t" and "hisat2_index_filename_prefix c = Some i"
    and "run e (hisat2_cmd t i x) (files w) = (rc, out, fs)"
  shows "((\<exists>s'. fst (align_body e c x sams w) = Inr s') \<longrightarrow> rc = 0 \<and> has_rate_pattern out)
       \<and> (rc \<noteq> 0 \<longrightarrow> fst (align_body e c x sams w) = Inl (ToolFailed ''hisat2'' rc (Some x)))
       \<and> (rc = 0 \<and> \<not> has_rate_pattern out \<longrightarrow> fst (align_body e c x sams w) = Inl AttributeError)"
proof -
  have a: "rc = 0 \<and> has_rate_pattern out" if "\<exists>s'. fst (align_body e c x sams w) = Inr s'"
  proof -
    from that obtain s' w' where "align_body e c x sams w = (Inr s', w')"
      by (cases "align_body e c x sams w") auto
    from align_body_InrD[OF this] assms obtain g where "rc = 0" "search out = Some g"
      by auto
    then show ?thesis
      using search_iff_pattern[of out] by simp
  qed
  have b: "fst (align_body e c x sams w) = Inl (ToolFailed ''hisat2'' rc (Some x))" if "rc \<noteq> 0"
    using align_body_tool_failed[OF assms that] by simp
  have c: "fst (align_body e c x sams w) = Inl AttributeError"
    if "rc = 0 \<and> \<not> has_rate_pattern out"
  proof -
    from that have "search out = None" using search_iff_pattern[of out] by simp
    moreover from that assms(3) have "run e (hisat2_cmd t i x) (files w) = (0, out, fs)" by simp
    ultimately show ?thesis
      using align_body_no_pattern[OF assms(1,2)] by simp
  qed
  from a b c show ?thesis by blast
qed

text \<open>
  C5. Every command the alignment stage starts passes one input file name in both
  mate slots, after \<open>-1\<close> and after \<open>-2\<close>, and the penalty \<open>1000000\<close>.
\<close>

theorem aligner_command_same_mates:
  assumes "input_raw_sequence_reads c = Some xs"
  shows "\<forall>cmd \<in> set (launched (new_events w (snd (hisat_2_align_seq_reads e c w)))).
           \<exists>x \<in> set xs. length cmd = 14 \<and>
             cmd ! 8 = ''-1'' \<and> cmd ! 9 = x \<and> cmd ! 10 = ''-2'' \<and> cmd ! 11 = x \<and>
             cmd ! 4 = ''--pen-noncansplice'' \<and> cmd ! 5 = ''1000000''"
proof -
  obtain r w' where s: "align_loop e c xs [] w = (r, w')" by (cases "align_loop e c xs [] w") auto
  from align_loop_launches[OF s] obtain new where
    n: "events w' = events w @ new" and
    l: "\<forall>cmd \<in> set (launched new).
              \<exists>x t i. x \<in> set xs \<and> max_cpu_threads c = Some t \<and>
                      hisat2_index_filename_prefix c = Some i \<and> cmd = hisat2_cmd t i x" by blast
  have "snd (hisat_2_align_seq_reads e c w) = w'"
    by (simp add: hisat_2_align_seq_reads_def assms s)
  moreover from n have "new_events w w' = new" by (rule new_events_append)
  ultimately show ?thesis using l by (fastforce simp: hisat2_cmd_def)
qed

lemma align_observations_ok:
  assumes "gzip_fq_after_alignment c = Some gz"
    and "length (align_observations e c xs w) = length xs"
    and "list_all (\<lambda>(rc, out, present). rc = 0 \<and> rate_ok e out \<and> (gz \<longrightarrow> present))
           (align_observations e c xs w)"
  shows "\<exists>w'. align_loop e c xs sams w =
           (Inr (sams @ map (\<lambda>x. fst (splitext x) @ ''.sam'') xs), w')"
  using assms(2,3)
proof (induction xs arbitrary: sams w)
  case Nil
  then show ?case by simp
next
  case (Cons x xs)
  from Cons.prems(1) obtain t i where
    t: "max_cpu_threads c = Some t" and i: "hisat2_index_filename_prefix c = Some i"
    by (cases "max_cpu_threads c"; cases "hisat2_index_filename_prefix c") auto
  obtain rc out fs where r: "run e (hisat2_cmd t i x) (files w) = (rc, out, fs)"
    by (cases "run e (hisat2_cmd t i x) (files w)") auto
  then have l: "launch e (hisat2_cmd t i x) w =
      ((rc, out), w\<lparr>files := fs, events := events w @ [Launch (hisat2_cmd t i x)]\<rparr>)"
    by (simp add: launch_def)
  have obs: "align_observations e c (x # xs) w =
      (rc, out, fs x \<noteq> None) #
      (case align_body e c x [] w of
         (Inr sams, w') \<Rightarrow> align_observations e c xs w'
       | (Inl err, w') \<Rightarrow> [])"
    by (simp add: t i l)
  from Cons.prems(2) have hd: "rc = 0" "rate_ok e out" "gz \<longrightarrow> fs x \<noteq> None"
    unfolding obs by simp_all
  from hd(2) obtain g where g: "search out = Some g" "\<not> float_lt_int (py_float e g) 70"
    by (auto simp: rate_ok_def split: option.splits)
  obtain src where src: "gz \<Longrightarrow> fs x = Some src"
    using hd(3) by (cases "fs x") auto
  note ok = align_body_ok[OF t i assms(1) r[unfolded hd(1)] g src]
  obtain w1 where
    b0: "align_body e c x [] w = (Inr ([] @ [fst (splitext x) @ ''.sam'']), w1)" and
    b: "align_body e c x sams w = (Inr (sams @ [fst (splitext x) @ ''.sam'']), w1)"
    using ok[of "[]"] ok[of sams] by blast
  have tl: "align_observations e c (x # xs) w = (rc, out, fs x \<noteq> None) # align_observations e c xs w1"
    unfolding obs by (simp add: b0)
  from Cons.prems have "length (align_observations e c xs w1) = length xs"
    and "list_all (\<lambda>(rc, out, present). rc = 0 \<and> rate_ok e out \<and> (gz \<longrightarrow> present))
           (align_observations e c xs w1)"
    unfolding tl by simp_all
  from Cons.IH[OF this, of "sams @ [fst (splitext x) @ ''.sam'']"] b
  show ?case by simp
qed

text \<open>
  C2, as amended. For a configuration that holds the key \<open>gzip_fq_after_alignment\<close> and
  whose input list has N entries: if the stage makes N aligner invocations and each
  has exit code zero and a text with a rate of at least 70, and if, when the read
  files are to be compressed, each read file is present once its alignment has
  finished, then the stage returns exactly N paths, the i-th being the i-th input
  name with its extension stripped and \<open>.sam\<close> appended.
\<close>

theorem align_stage_outputs:
  assumes "input_raw_sequence_reads c = Some xs"
    and "gzip_fq_after_alignment c = Some gz"
    and "length (align_observations e c xs w) = length xs"
    and "list_all (\<lambda>(rc, out, present). rc = 0 \<and> rate_ok e out \<and> (gz \<longrightarrow> present))
           (align_observations e c xs w)"
  shows "\<exists>sams w'. hisat_2_align_seq_reads e c w = (Inr sams, w') \<and>
           length sams = length xs \<and>
           sams = map (\<lambda>x. fst (splitext x) @ ''.sam'') xs"
  using align_observations_ok[OF assms(2,3,4), of "[]"]
  by (auto simp: hisat_2_align_seq_reads_def assms(1))

text \<open>
  C8. For an input the loop body of the alignment stage processes to its end: with
  \<open>gzip_fq_after_alignment\<close> false the stage leaves the read file, and the file of that
  name with \<open>.gz\<close> appended, as the aligner left them, and does nothing but start the
  aligner and write the log; with the flag true it writes the \<open>.gz\<close> file, holding the
  compression of the read file's bytes, and then removes the read file. The two
  other cleanup flags have no effect on the result.
\<close>

theorem gzip_flag_effect:
  assumes "align_body e c x sams w = (Inr s', w')"
    and "max_cpu_threads c = Some t" and "hisat2_index_filename_prefix c = Some i"
    and "run e (hisat2_cmd t i x) (files w) = (rc, out, fs)"
  shows "(gzip_fq_after_alignment c = Some False \<longrightarrow>
            files w' x = fs x \<and> files w' (x @ ''.gz'') = fs (x @ ''.gz'') \<and>
            new_events w w' =
              [Launch (hisat2_cmd t i x), Wrote (fst (splitext x) @ ''.align.log'')])
       \<and> (gzip_fq_after_alignment c = Some True \<longrightarrow>
            (\<exists>src. fs x = Some src \<and> files w' (x @ ''.gz'') = Some (Gz src)) \<and>
            files w' x = None \<and>
            new_events w w' =
              [Launch (hisat2_cmd t i x), Wrote (fst (splitext x) @ ''.align.log''),
               Wrote (x @ ''.gz''), Removed x])
       \<and> (\<forall>a b. align_body e (c\<lparr>rm_sam_after_converting := a, rm_bam_after_sorting := b\<rparr>) x sams w
                 = (Inr s', w'))"
proof -
  from align_body_InrD[OF assms(1)] assms(2,3,4) obtain gz g where
    gz: "gzip_fq_after_alignment c = Some gz" and rc: "rc = 0" and
    g: "search out = Some g" "\<not> float_lt_int (py_float e g) 70" and
    p: "gz \<longrightarrow> fs x \<noteq> None" by auto
  obtain src where src: "gz \<Longrightarrow> fs x = Some src"
    using p by (cases "fs x") auto
  note r = assms(4)[unfolded rc]
  note ok = align_body_ok[OF assms(2,3) gz r g src, of sams]
  have ne: "fst (splitext x) @ ''.align.log'' \<noteq> x"
           "fst (splitext x) @ ''.align.log'' \<noteq> x @ ''.gz''"
    by (rule log_file_not_input, rule log_file_not_gz)
  have w': "w' = w\<lparr>files :=
         (if gz then
            (fs(fst (splitext x) @ ''.align.log'' \<mapsto> Plain (join (hisat2_cmd t i x) @ newline @ out),
                x @ ''.gz'' \<mapsto> Gz src))(x := None)
          else fs(fst (splitext x) @ ''.align.log'' \<mapsto> Plain (join (hisat2_cmd t i x) @ newline @ out))),
       events := events w @
         [Launch (hisat2_cmd t i x), Wrote (fst (splitext x) @ ''.align.log'')] @
         (if gz then [Wrote (x @ ''.gz''), Removed x] else [])\<rparr>"
    using ok assms(1) by simp
  have off: "gzip_fq_after_alignment c = Some False \<longrightarrow>
            files w' x = fs x \<and> files w' (x @ ''.gz'') = fs (x @ ''.gz'') \<and>
            new_events w w' =
              [Launch (hisat2_cmd t i x), Wrote (fst (splitext x) @ ''.align.log'')]"
    using gz ne by (auto simp: w' new_events_def)
  have on: "gzip_fq_after_alignment c = Some True \<longrightarrow>
            (\<exists>src. fs x = Some src \<and> files w' (x @ ''.gz'') = Some (Gz src)) \<and>
            files w' x = None \<and>
            new_events w w' =
              [Launch (hisat2_cmd t i x), Wrote (fst (splitext x) @ ''.align.log''),
               Wrote (x @ ''.gz''), Removed x]"
    using gz src by (auto simp: w' new_events_def)
  have ind: "align_body e (c\<lparr>rm_sam_after_converting := a, rm_bam_after_sorting := b\<rparr>) x sams w
        = align_body e c x sams w" for a b
    by (simp add: align_body_def cong: option.case_cong prod.case_cong if_cong)
  from off on ind assms(1) show ?thesis by simp
qed

section \<open>Sample runs of the alignment stage\<close>

text \<open>
  C2 as stated fails: with the template's \<open>gzip_fq_after_alignment\<close> and a read file
  that is absent, the one aligner invocation has exit code zero and a rate of 95.00,
  and the stage raises \<^verbatim>\<open>FileNotFoundError\<close> from \<^verbatim>\<open>_gzip_fq\<close> instead of returning a
  path.
\<close>

theorem align_stage_outputs_counterexample:
  "align_observations demo_env (demo_config [''a.fq''] True) [''a.fq'']
       (demo_world (demo_config [''a.fq''] True) [])
     = [(0, ''95.00% overall alignment rate'', False)]
   \<and> rate_ok demo_env ''95.00% overall alignment rate''
   \<and> fst (hisat_2_align_seq_reads demo_env (demo_config [''a.fq''] True)
            (demo_world (demo_config [''a.fq''] True) []))
     = Inl (FileNotFoundError ''a.fq'')"
  by code_simp

theorem align_stage_outputs_witness:
  "length (align_observations demo_env (demo_config [''a.fq'', ''run.2/b.fastq''] True)
             [''a.fq'', ''run.2/b.fastq'']
             (demo_world (demo_config [''a.fq'', ''run.2/b.fastq''] True) [''a.fq'', ''run.2/b.fastq'']))
     = 2
   \<and> fst (hisat_2_align_seq_reads demo_env (demo_config [''a.fq'', ''run.2/b.fastq''] True)
            (demo_world (demo_config [''a.fq'', ''run.2/b.fastq''] True) [''a.fq'', ''run.2/b.fastq'']))
     = Inr [''a.sam'', ''run.2/b.sam'']"
proof -
  let ?xs = "[''a.fq'', ''run.2/b.fastq'']"
  let ?c = "demo_config ?xs True"
  let ?w = "demo_world ?c ?xs"
  have inp: "input_raw_sequence_reads ?c = Some ?xs" and gz: "gzip_fq_after_alignment ?c = Some True"
    by (simp_all add: demo_config_def)
  have len: "length (align_observations demo_env ?c ?xs ?w) = length ?xs" by code_simp
  have ok: "list_all (\<lambda>(rc, out, present). rc = 0 \<and> rate_ok demo_env out \<and> (True \<longrightarrow> present))
              (align_observations demo_env ?c ?xs ?w)" by code_simp
  have names: "map (\<lambda>x. fst (splitext x) @ ''.sam'') ?xs = [''a.sam'', ''run.2/b.sam'']"
    by code_simp
  from align_stage_outputs[OF inp gz len ok, of] len names show ?thesis by auto
qed

theorem align_success_condition_witness:
  "fst (align_body demo_env (demo_config [] False) ''a.fq'' [] (demo_world (demo_config [] False) []))
     = Inr [''a.sam'']
   \<and> has_rate_pattern ''95.00% overall alignment rate''
   \<and> fst (align_body demo_env (demo_config [] False) ''bad.fq'' [] (demo_world (demo_config [] False) []))
     = Inl (ToolFailed ''hisat2'' 1 (Some ''bad.fq''))
   \<and> \<not> has_rate_pattern ''no rate in this text''
   \<and> fst (align_body demo_env (demo_config [] False) ''quiet.fq'' [] (demo_world (demo_config [] False) []))
     = Inl AttributeError"
proof -
  let ?c = "demo_config [] False"
  let ?w = "demo_world ?c []"
  have t: "max_cpu_threads ?c = Some 16" and i: "hisat2_index_filename_prefix ?c = Some ''index/genome''"
    by (simp_all add: demo_config_def sample_config_def)
  have s16: "str_int 16 = ''16''" by code_simp
  have ra: "run demo_env (hisat2_cmd 16 ''index/genome'' ''a.fq'') (files ?w)
            = (0, ''95.00% overall alignment rate'', files ?w)"
    by (simp add: demo_env_def scripted_env_def hisat2_cmd_def s16)
  have rb: "run demo_env (hisat2_cmd 16 ''index/genome'' ''bad.fq'') (files ?w)
            = (1, ''Error: reads file does not look like a FASTQ file'', files ?w)"
    by (simp add: demo_env_def scripted_env_def hisat2_cmd_def s16)
  have rq: "run demo_env (hisat2_cmd 16 ''index/genome'' ''quiet.fq'') (files ?w)
            = (0, ''no rate in this text'', files ?w)"
    by (simp add: demo_env_def scripted_env_def hisat2_cmd_def s16)
  have a: "fst (align_body demo_env ?c ''a.fq'' [] ?w) = Inr [''a.sam'']" by code_simp
  have "search ''no rate in this text'' = None" by code_simp
  then have q: "\<not> has_rate_pattern ''no rate in this text''"
    using search_iff_pattern[of "''no rate in this text''"] by simp
  from align_success_condition[OF t i ra, of "[]"] align_success_condition[OF t i rb, of "[]"]
       align_success_condition[OF t i rq, of "[]"] a q
  show ?thesis by simp
qed

theorem aligner_command_same_mates_witness:
  "input_raw_sequence_reads (demo_config [''a.fq'', ''low.fq'', ''c.fq''] False)
     = Some [''a.fq'', ''low.fq'', ''c.fq'']
   \<and> launched (new_events (demo_world (demo_config [''a.fq'', ''low.fq'', ''c.fq''] False) [])
        (snd (hisat_2_align_seq_reads demo_env (demo_config [''a.fq'', ''low.fq'', ''c.fq''] False)
               (demo_world (demo_config [''a.fq'', ''low.fq'', ''c.fq''] False) []))))
     = [[''./hisat2'', ''-q'', ''-p'', ''16'', ''--pen-noncansplice'', ''1000000'',
         ''-x'', ''index/genome'', ''-1'', ''a.fq'', ''-2'', ''a.fq'', ''-S'', ''a.sam''],
        [''./hisat2'', ''-q'', ''-p'', ''16'', ''--pen-noncansplice'', ''1000000'',
         ''-x'', ''index/genome'', ''-1'', ''low.fq'', ''-2'', ''low.fq'', ''-S'', ''low.sam'']]
   \<and> list_all (\<lambda>cmd. cmd ! 9 = cmd ! 11 \<and> cmd ! 9 \<in> set [''a.fq'', ''low.fq'', ''c.fq''])
        (launched (new_events (demo_world (demo_config [''a.fq'', ''low.fq'', ''c.fq''] False) [])
          (snd (hisat_2_align_seq_reads demo_env (demo_config [''a.fq'', ''low.fq'', ''c.fq''] False)
                 (demo_world (demo_config [''a.fq'', ''low.fq'', ''c.fq''] False) [])))))"
proof -
  let ?xs = "[''a.fq'', ''low.fq'', ''c.fq'']"
  let ?c = "demo_config ?xs False"
  let ?w = "demo_world ?c []"
  have inp: "input_raw_sequence_reads ?c = Some ?xs" by (simp add: demo_config_def)
  have ev: "launched (new_events ?w (snd (hisat_2_align_seq_reads demo_env ?c ?w)))
     = [[''./hisat2'', ''-q'', ''-p'', ''16'', ''--pen-noncansplice'', ''1000000'',
         ''-x'', ''index/genome'', ''-1'', ''a.fq'', ''-2'', ''a.fq'', ''-S'', ''a.sam''],
        [''./hisat2'', ''-q'', ''-p'', ''16'', ''--pen-noncansplice'', ''1000000'',
         ''-x'', ''index/genome'', ''-1'', ''low.fq'', ''-2'', ''low.fq'', ''-S'', ''low.sam'']]"
    by code_simp
  from aligner_command_same_mates[OF inp, of ?w demo_env]
  have "list_all (\<lambda>cmd. cmd ! 9 = cmd ! 11 \<and> cmd ! 9 \<in> set ?xs)
          (launched (new_events ?w (snd (hisat_2_align_seq_reads demo_env ?c ?w))))"
    unfolding list_all_iff by fastforce
  with inp ev show ?thesis by simp
qed

theorem gzip_flag_effect_witness:
  "fst (align_body demo_env (demo_config [''a.fq''] True) ''a.fq'' []
          (demo_world (demo_config [''a.fq''] True) [''a.fq''])) = Inr [''a.sam'']
   \<and> files (snd (align_body demo_env (demo_config [''a.fq''] True) ''a.fq'' []
          (demo_world (demo_config [''a.fq''] True) [''a.fq'']))) ''a.fq'' = None
   \<and> files (snd (align_body demo_env (demo_config [''a.fq''] True) ''a.fq'' []
          (demo_world (demo_config [''a.fq''] True) [''a.fq'']))) ''a.fq.gz''
       = Some (Gz (Plain ''reads of a.fq''))
   \<and> fst (align_body demo_env (demo_config [''a.fq''] False) ''a.fq'' []
          (demo_world (demo_config [''a.fq''] False) [''a.fq''])) = Inr [''a.sam'']
   \<and> files (snd (align_body demo_env (demo_config [''a.fq''] False) ''a.fq'' []
          (demo_world (demo_config [''a.fq''] False) [''a.fq'']))) ''a.fq''
       = Some (Plain ''reads of a.fq'')"
proof -
  let ?on = "demo_config [''a.fq''] True" and ?off = "demo_config [''a.fq''] False"
  let ?w1 = "demo_world ?on [''a.fq'']" and ?w0 = "demo_world ?off [''a.fq'']"
  have s16: "str_int 16 = ''16''" by code_simp
  have k: "max_cpu_threads ?on = Some 16" "hisat2_index_filename_prefix ?on = Some ''index/genome''"
          "max_cpu_threads ?off = Some 16" "hisat2_index_filename_prefix ?off = Some ''index/genome''"
          "gzip_fq_after_alignment ?on = Some True" "gzip_fq_after_alignment ?off = Some False"
    by (simp_all add: demo_config_def sample_config_def)
  have r1: "run demo_env (hisat2_cmd 16 ''index/genome'' ''a.fq'') (files ?w1)
            = (0, ''95.00% overall alignment rate'', files ?w1)"
    by (simp add: demo_env_def scripted_env_def hisat2_cmd_def s16)
  have r0: "run demo_env (hisat2_cmd 16 ''index/genome'' ''a.fq'') (files ?w0)
            = (0, ''95.00% overall alignment rate'', files ?w0)"
    by (simp add: demo_env_def scripted_env_def hisat2_cmd_def s16)
  have f1: "fst (align_body demo_env ?on ''a.fq'' [] ?w1) = Inr [''a.sam'']" by code_simp
  have f0: "fst (align_body demo_env ?off ''a.fq'' [] ?w0) = Inr [''a.sam'']" by code_simp
  have b1: "align_body demo_env ?on ''a.fq'' [] ?w1
            = (Inr [''a.sam''], snd (align_body demo_env ?on ''a.fq'' [] ?w1))"
    using f1 by (simp add: prod_eq_iff)
  have b0: "align_body demo_env ?off ''a.fq'' [] ?w0
            = (Inr [''a.sam''], snd (align_body demo_env ?off ''a.fq'' [] ?w0))"
    using f0 by (simp add: prod_eq_iff)
  have p1: "files ?w1 ''a.fq'' = Some (Plain ''reads of a.fq'')"
   and p0: "files ?w0 ''a.fq'' = Some (Plain ''reads of a.fq'')"
    by (simp_all add: demo_world_def)
  from gzip_flag_effect[OF b1 k(1,2) r1] gzip_flag_effect[OF b0 k(3,4) r0] k(5,6) f1 f0 p1 p0
  show ?thesis by auto
qed

section \<open>The logs\<close>

text \<open>
  The log of an input the alignment stage processes to its end holds the command
  line, a newline and the aligner's captured text, in that order.
\<close>

lemma align_log_content:
  assumes "align_body e c x sams w = (Inr s', w')"
    and "max_cpu_threads c = Some t" and "hisat2_index_filename_prefix c = Some i"
    and "run e (hisat2_cmd t i x) (files w) = (rc, out, fs)"
  shows "files w' (fst (splitext x) @ ''.align.log'')
         = Some (Plain (join (hisat2_cmd t i x) @ newline @ out))"
proof -
  from align_body_InrD[OF assms(1)] assms(2,3,4) obtain gz g where
    gz: "gzip_fq_after_alignment c = Some gz" and rc: "rc = 0" and
    g: "search out = Some g" "\<not> float_lt_int (py_float e g) 70" and
    p: "gz \<longrightarrow> fs x \<noteq> None" by auto
  obtain src where src: "gz \<Longrightarrow> fs x = Some src"
    using p by (cases "fs x") auto
  note ok = align_body_ok[OF assms(2,3) gz assms(4)[unfolded rc] g src, of sams]
  have ne: "fst (splitext x) @ ''.align.log'' \<noteq> x"
           "fst (splitext x) @ ''.align.log'' \<noteq> x @ ''.gz''"
    by (rule log_file_not_input, rule log_file_not_gz)
  from ok assms(1) ne show ?thesis by (cases gz) auto
qed

text \<open>
  C7. The log of the feature counting stage, whenever the command line and its
  newline fit the buffer of the file object: the file holds the counter's text first
  and the command line after it, the reverse of the order in which the code issues
  the two writes.
\<close>

theorem features_log_content:
  assumes "featureCounts_gtf_annotation_file c = Some gtf" and "max_cpu_threads c = Some t"
    and "run e (featurecounts_cmd gtf t sort_bams)
           ((files w)(''features.log'' \<mapsto> Plain [])) = (rc, out, fs)"
    and "length (join (featurecounts_cmd gtf t sort_bams) @ newline) \<le> buffer_size e"
  shows "files (snd (featurecounts_all_samples e sort_bams c w)) ''features.log''
         = Some (Plain (out @ join (featurecounts_cmd gtf t sort_bams) @ newline))"
  using assms
  by (simp add: featurecounts_all_samples_def Let_def buffered_write_def launch_def write_file_def)

theorem features_log_content_witness:
  "length (join (featurecounts_cmd ''annotation.gtf'' 16 [''a.sort.bam'']) @ newline) \<le> buffer_size demo_env
   \<and> files (snd (featurecounts_all_samples demo_env [''a.sort.bam''] sample_config empty_world))
        ''features.log''
     = Some (Plain (''counted'' @
         ''./featureCounts -p -t exon -a annotation.gtf -g gene_name -T 16 -o features.txt a.sort.bam''
         @ newline))"
proof -
  have k: "featureCounts_gtf_annotation_file sample_config = Some ''annotation.gtf''"
          "max_cpu_threads sample_config = Some 16"
    by (simp_all add: sample_config_def)
  have s16: "str_int 16 = ''16''" by code_simp
  have r: "run demo_env (featurecounts_cmd ''annotation.gtf'' 16 [''a.sort.bam''])
             ((files empty_world)(''features.log'' \<mapsto> Plain []))
           = (0, ''counted'', (files empty_world)(''features.log'' \<mapsto> Plain []))"
    by (simp add: demo_env_def scripted_env_def featurecounts_cmd_def s16)
  have j: "join (featurecounts_cmd ''annotation.gtf'' 16 [''a.sort.bam''])
           = ''./featureCounts -p -t exon -a annotation.gtf -g gene_name -T 16 -o features.txt a.sort.bam''"
    by code_simp
  have l: "length (join (featurecounts_cmd ''annotation.gtf'' 16 [''a.sort.bam'']) @ newline)
           \<le> buffer_size demo_env"
    unfolding j by (simp add: demo_env_def scripted_env_def newline_def)
  from features_log_content[OF k r l] j l show ?thesis by simp
qed

text \<open>A command line too long for the buffer goes to the file at once, before the counter runs.\<close>

lemma features_log_long_command:
  assumes "featureCounts_gtf_annotation_file c = Some gtf" and "max_cpu_threads c = Some t"
    and "run e (featurecounts_cmd gtf t sort_bams)
           ((files w)(''features.log'' \<mapsto> Plain (join (featurecounts_cmd gtf t sort_bams) @ newline)))
         = (rc, out, fs)"
    and "length (join (featurecounts_cmd gtf t sort_bams) @ newline) > buffer_size e"
  shows "files (snd (featurecounts_all_samples e sort_bams c w)) ''features.log''
         = Some (Plain (join (featurecounts_cmd gtf t sort_bams) @ newline @ out))"
  using assms
  by (simp add: featurecounts_all_samples_def Let_def buffered_write_def launch_def write_file_def)

section \<open>The template configuration\<close>

lemma align_body_no_config_error:
  assumes "max_cpu_threads c \<noteq> None" "hisat2_index_filename_prefix c \<noteq> None"
    and "gzip_fq_after_alignment c \<noteq> None"
    and "align_body e c x sams w = (Inl err, w')"
  shows "\<not> config_error err"
  using assms
  by (auto simp: align_body_def Let_def launch_def gzip_fq_def remove_def write_file_def
                 config_error_def
           split: option.splits prod.splits sum.splits if_splits)

lemma align_loop_no_config_error:
  assumes "max_cpu_threads c \<noteq> None" "hisat2_index_filename_prefix c \<noteq> None"
    and "gzip_fq_after_alignment c \<noteq> None"
    and "align_loop e c xs sams w = (Inl err, w')"
  shows "\<not> config_error err"
  using assms(4)
proof (induction xs arbitrary: sams w)
  case Nil
  then show ?case by simp
next
  case (Cons x xs)
  show ?case
  proof (cases "align_body e c x sams w")
    case (Pair r w1)
    show ?thesis
    proof (cases r)
      case (Inl err1)
      with Pair Cons.prems have "align_body e c x sams w = (Inl err, w')" by simp
      from align_body_no_config_error[OF assms(1-3) this] show ?thesis .
    next
      case (Inr s1)
      with Pair Cons.prems have "align_loop e c xs s1 w1 = (Inl err, w')" by simp
      from Cons.IH[OF this] show ?thesis .
    qed
  qed
qed

lemma view_body_no_config_error:
  assumes "max_cpu_threads c \<noteq> None" "rm_sam_after_converting c \<noteq> None"
    and "view_body e c x bams w = (Inl err, w')"
  shows "\<not> config_error err"
  using assms
  by (auto simp: view_body_def Let_def launch_def remove_def write_file_def config_error_def
           split: option.splits prod.splits sum.splits if_splits)

lemma view_loop_no_config_error:
  assumes "max_cpu_threads c \<noteq> None" "rm_sam_after_converting c \<noteq> None"
    and "view_loop e c xs bams w = (Inl err, w')"
  shows "\<not> config_error err"
  using assms(3)
proof (induction xs arbitrary: bams w)
  case Nil
  then show ?case by simp
next
  case (Cons x xs)
  show ?case
  proof (cases "view_body e c x bams w")
    case (Pair r w1)
    show ?thesis
    proof (cases r)
      case (Inl err1)
      with Pair Cons.prems have "view_body e c x bams w = (Inl err, w')" by simp
      from view_body_no_config_error[OF assms(1,2) this] show ?thesis .
    next
      case (Inr s1)
      with Pair Cons.prems have "view_loop e c xs s1 w1 = (Inl err, w')" by simp
      from Cons.IH[OF this] show ?thesis .
    qed
  qed
qed

lemma sort_body_no_config_error:
  assumes "max_cpu_threads c \<noteq> None" "rm_bam_after_sorting c \<noteq> None"
    and "sort_body e c x sbams w = (Inl err, w')"
  shows "\<not> config_error err"
  using assms
  by (auto simp: sort_body_def Let_def launch_def remove_def write_file_def config_error_def
           split: option.splits prod.splits sum.splits if_splits)

lemma sort_loop_no_config_error:
  assumes "max_cpu_threads c \<noteq> None" "rm_bam_after_sorting c \<noteq> None"
    and "sort_loop e c xs sbams w = (Inl err, w')"
  shows "\<not> config_error err"
  using assms(3)
proof (induction xs arbitrary: sbams w)
  case Nil
  then show ?case by simp
next
  case (Cons x xs)
  show ?case
  proof (cases "sort_body e c x sbams w")
    case (Pair r w1)
    show ?thesis
    proof (cases r)
      case (Inl err1)
      with Pair Cons.prems have "sort_body e c x sbams w = (Inl err, w')" by simp
      from sort_body_no_config_error[OF assms(1,2) this] show ?thesis .
    next
      case (Inr s1)
      with Pair Cons.prems have "sort_loop e c xs s1 w1 = (Inl err, w')" by simp
      from Cons.IH[OF this] show ?thesis .
    qed
  qed
qed

lemma featurecounts_no_config_error:
  assumes "max_cpu_threads c \<noteq> None" "featureCounts_gtf_annotation_file c \<noteq> None"
    and "featurecounts_all_samples e sbams c w = (Inl err, w')"
  shows "\<not> config_error err"
  using assms
  by (auto simp: featurecounts_all_samples_def Let_def launch_def write_file_def config_error_def
           split: option.splits prod.splits sum.splits if_splits)

lemma main_no_config_error:
  assumes "files w p = Some (JsonCfg c)"
    and "input_raw_sequence_reads c \<noteq> None" "max_cpu_threads c \<noteq> None"
    and "hisat2_index_filename_prefix c \<noteq> None" "featureCounts_gtf_annotation_file c \<noteq> None"
    and "gzip_fq_after_alignment c \<noteq> None" "rm_sam_after_converting c \<noteq> None"
    and "rm_bam_after_sorting c \<noteq> None"
    and "main e (prog # ''--config'' # p # rest) w = (Inl err, w')"
  shows "\<not> config_error err"
proof -
  from assms(2) obtain xs where xs: "input_raw_sequence_reads c = Some xs" by auto
  have l: "load_config p w = Inr c" by (simp add: load_config_def assms(1))
  obtain r1 w1 where a: "align_loop e c xs [] w = (r1, w1)" by (cases "align_loop e c xs [] w") auto
  then have st: "hisat_2_align_seq_reads e c w = (r1, w1)"
    by (simp add: hisat_2_align_seq_reads_def xs)
  show ?thesis
  proof (cases r1)
    case (Inl e1)
    with assms(9) l st have "e1 = err" by (simp add: main_def)
    with a Inl align_loop_no_config_error[OF assms(3,4,6)] show ?thesis by blast
  next
    case sams: (Inr sams)
    obtain r2 w2 where v: "view_loop e c sams [] w1 = (r2, w2)"
      by (cases "view_loop e c sams [] w1") auto
    show ?thesis
    proof (cases r2)
      case (Inl e2)
      with assms(9) l st sams v have "e2 = err" by (simp add: main_def samtools_view_def)
      with v Inl view_loop_no_config_error[OF assms(3,7)] show ?thesis by blast
    next
      case bams: (Inr bams)
      obtain r3 w3 where s: "sort_loop e c bams [] w2 = (r3, w3)"
        by (cases "sort_loop e c bams [] w2") auto
      show ?thesis
      proof (cases r3)
        case (Inl e3)
        with assms(9) l st sams v bams s have "e3 = err"
          by (simp add: main_def samtools_view_def samtools_sort_def)
        with s Inl sort_loop_no_config_error[OF assms(3,8)] show ?thesis by blast
      next
        case (Inr sbams)
        with assms(9) l st sams v bams s
        have "featurecounts_all_samples e sbams c w3 = (Inl err, w')"
          by (simp add: main_def samtools_view_def samtools_sort_def)
        from featurecounts_no_config_error[OF assms(3,5) this] show ?thesis .
      qed
    qed
  qed
qed

text \<open>
  C6. A run with \<open>--make-config\<close> ends normally and leaves the template in
  \<open>config.json\<close>; a following run with \<open>--config config.json\<close>, in whatever environment,
  loads the template and fails neither with the configuration-not-found error nor
  with a key error: the template holds each of the seven keys the stages read.
\<close>

theorem sample_config_round_trip:
  "fst (main e [prog, ''--make-config''] w) = Inr ()
   \<and> load_config ''config.json'' (snd (main e [prog, ''--make-config''] w)) = Inr sample_config
   \<and> (\<forall>p. fst (main e' [prog', ''--config'', ''config.json''] (snd (main e [prog, ''--make-config''] w)))
           \<noteq> Inl (ConfigNotFound p))
   \<and> (\<forall>k. fst (main e' [prog', ''--config'', ''config.json''] (snd (main e [prog, ''--make-config''] w)))
           \<noteq> Inl (KeyError k))
   \<and> input_raw_sequence_reads sample_config \<noteq> None
   \<and> max_cpu_threads sample_config \<noteq> None
   \<and> hisat2_index_filename_prefix sample_config \<noteq> None
   \<and> featureCounts_gtf_annotation_file sample_config \<noteq> None
   \<and> gzip_fq_after_alignment sample_config \<noteq> None
   \<and> rm_sam_after_converting sample_config \<noteq> None
   \<and> rm_bam_after_sorting sample_config \<noteq> None"
proof -
  let ?w1 = "snd (main e [prog, ''--make-config''] w)"
  have m: "main e [prog, ''--make-config''] w = (Inr (), make_sample_config_file w)"
    by (simp add: main_def)
  have f: "files ?w1 ''config.json'' = Some (JsonCfg sample_config)"
    by (simp add: m make_sample_config_file_def write_file_def)
  have keys: "input_raw_sequence_reads sample_config \<noteq> None"
    "max_cpu_threads sample_config \<noteq> None"
    "hisat2_index_filename_prefix sample_config \<noteq> None"
    "featureCounts_gtf_annotation_file sample_config \<noteq> None"
    "gzip_fq_after_alignment sample_config \<noteq> None"
    "rm_sam_after_converting sample_config \<noteq> None"
    "rm_bam_after_sorting sample_config \<noteq> None"
    by (simp_all add: sample_config_def)
  have ne: "\<not> config_error err"
    if "fst (main e' [prog', ''--config'', ''config.json''] ?w1) = Inl err" for err
  proof -
    from that have "main e' (prog' # ''--config'' # ''config.json'' # []) ?w1
        = (Inl err, snd (main e' [prog', ''--config'', ''config.json''] ?w1))"
      by (simp add: prod_eq_iff)
    from main_no_config_error[OF f keys this] show ?thesis .
  qed
  have a: "fst (main e' [prog', ''--config'', ''config.json''] ?w1) \<noteq> Inl (ConfigNotFound p)" for p
    using ne[of "ConfigNotFound p"] by (auto simp: config_error_def)
  have b: "fst (main e' [prog', ''--config'', ''config.json''] ?w1) \<noteq> Inl (KeyError k)" for k
    using ne[of "KeyError k"] by (auto simp: config_error_def)
  have l: "load_config ''config.json'' ?w1 = Inr sample_config"
    by (simp add: load_config_def f)
  from m l a b keys show ?thesis by simp
qed

theorem sample_config_round_trip_witness:
  "fst (main demo_env [''prog'', ''--config'', ''config.json'']
          (snd (main demo_env [''prog'', ''--make-config''] empty_world)))
     = Inl (FileNotFoundError ''ctl_A_1.fq'')
   \<and> load_config ''config.json'' (snd (main demo_env [''prog'', ''--make-config''] empty_world))
     = Inr sample_config"
proof -
  have "fst (main demo_env [''prog'', ''--config'', ''config.json'']
          (snd (main demo_env [''prog'', ''--make-config''] empty_world)))
     = Inl (FileNotFoundError ''ctl_A_1.fq'')" by code_simp
  with sample_config_round_trip[of demo_env "''prog''" empty_world demo_env "''prog''"]
  show ?thesis by simp
qed

end
